theory Spec2Isabelle
  imports Complex_Main
begin

section \<open>The pin-state monitoring engine of io-Monitor (src/gpio_monitor.py)\<close>

text \<open>
  A shallow embedding of the class \<^verbatim>\<open>GPIOMonitor\<close>. Every method becomes a function
  that takes the monitor's state and returns the new one; the clock
  (\<^verbatim>\<open>datetime.now()\<close>), the hardware reads (\<^verbatim>\<open>GPIO.input\<close>) and the random
  draws of the simulation are inputs of the functions that use them. Each method is
  modelled as one atomic step: the interleaving of the sampling thread with the
  request handlers inside a method body is not part of the model.
\<close>

subsection \<open>Errors\<close>

datatype py_error = FileNotFoundError | JSONDecodeError | OverflowError | AttributeError

subsection \<open>datetime and timedelta\<close>

text \<open>
  A naive \<^verbatim>\<open>datetime\<close> has microsecond resolution and ranges from
  0001-01-01T00:00:00 to 9999-12-31T23:59:59.999999. It is modelled by the number of
  microseconds since \<^verbatim>\<open>datetime.min\<close>; the ordinal of \<^verbatim>\<open>date.max\<close> is 3652059, so
  the representable values are \<open>0 \<le> t < MAXDATETIME\<close>. A \<^verbatim>\<open>timedelta\<close> is its total
  number of microseconds; its constructor refuses more than 999999999 days in either
  direction. Both refusals are \<^verbatim>\<open>OverflowError\<close>.
\<close>

type_synonym datetime = int
type_synonym timedelta = int

definition MAXDATETIME :: int where
  "MAXDATETIME = 3652059 * 86400000000"

definition timedelta_hours :: "int \<Rightarrow> py_error + timedelta" where
  "timedelta_hours hours =
     (let us = hours * 3600000000; days = us div 86400000000
      in if days < - 999999999 \<or> 999999999 < days then Inl OverflowError else Inr us)"

definition datetime_sub :: "datetime \<Rightarrow> timedelta \<Rightarrow> py_error + datetime" where
  "datetime_sub t d =
     (let r = t - d in if r < 0 \<or> MAXDATETIME \<le> r then Inl OverflowError else Inr r)"

definition valid_datetime :: "datetime \<Rightarrow> bool" where
  "valid_datetime t = (0 \<le> t \<and> t < MAXDATETIME)"

subsection \<open>History entries and the bounded deque\<close>

text \<open>
  A history entry is the dict \<^verbatim>\<open>{'timestamp': current_time.isoformat(), 'duration': ...}\<close>
  built at a falling edge (lines 136-139): \<open>timestamp\<close> is the time of the falling
  edge, the END of the high interval. \<^verbatim>\<open>datetime.fromisoformat\<close> inverts
  \<^verbatim>\<open>isoformat\<close> on naive datetimes, so the model stores the datetime itself.
  \<open>duration\<close> is \<^verbatim>\<open>(current_time - start).total_seconds()\<close>, kept here as the exact
  number of microseconds (the conversion to a float of seconds is left out). The
  entry stores no start; it is recovered as \<open>timestamp - duration\<close>.
\<close>

record entry =
  timestamp :: datetime
  duration :: timedelta

definition entry_start :: "entry \<Rightarrow> datetime" where
  "entry_start e = timestamp e - duration e"

text \<open>
  \<^verbatim>\<open>deque(maxlen=n).append(x)\<close>: the element is appended on the right and, when the
  deque then holds more than \<open>n\<close> elements, one element is popped on the left.
\<close>

definition deque_append :: "nat \<Rightarrow> 'a list \<Rightarrow> 'a \<Rightarrow> 'a list" where
  "deque_append maxlen xs x = (let ys = xs @ [x] in if maxlen < length ys then tl ys else ys)"

definition HISTORY_MAXLEN :: nat where
  "HISTORY_MAXLEN = 1000"

subsection \<open>The monitor's state\<close>

text \<open>
  The attributes assigned in \<^verbatim>\<open>__init__\<close> (lines 21-36), but for the raw
  \<^verbatim>\<open>config\<close>, the thread handle and the logger. The dicts are maps; the two
  \<^verbatim>\<open>defaultdict\<close>s are maps read through \<open>count_of\<close> and \<open>history_of\<close>, which give
  the default of a missing key (reading a missing key also inserts it, which
  \<open>touch_defaults\<close> writes out where the source does so). Pin ids and levels are
  Python integers.
\<close>

record monitor =
  pins_to_monitor :: "int list"
  update_interval :: rat
  history_duration :: int
  pin_states :: "int \<rightharpoonup> int"
  pin_labels :: "string \<rightharpoonup> string"
  transition_counts :: "int \<rightharpoonup> int"
  last_transition_time :: "int \<rightharpoonup> datetime"
  high_duration_history :: "int \<rightharpoonup> entry list"
  current_high_start :: "int \<rightharpoonup> datetime"
  monitoring :: bool

definition count_of :: "monitor \<Rightarrow> int \<Rightarrow> int" where
  "count_of s pin = (case transition_counts s pin of None \<Rightarrow> 0 | Some c \<Rightarrow> c)"

definition history_of :: "monitor \<Rightarrow> int \<Rightarrow> entry list" where
  "history_of s pin = (case high_duration_history s pin of None \<Rightarrow> [] | Some d \<Rightarrow> d)"

definition init_monitor :: "int list \<Rightarrow> rat \<Rightarrow> int \<Rightarrow> (string \<rightharpoonup> string) \<Rightarrow> monitor" where
  "init_monitor pins interval minutes labels =
     \<lparr>pins_to_monitor = pins, update_interval = interval, history_duration = minutes,
      pin_states = Map.empty, pin_labels = labels, transition_counts = Map.empty,
      last_transition_time = Map.empty, high_duration_history = Map.empty,
      current_high_start = Map.empty, monitoring = False\<rparr>"

text \<open>
  \<^verbatim>\<open>_setup_simulation\<close> (lines 76-81): every monitored pin gets a random level, 0 or 1,
  and the current time. The draws and the clock readings are the list \<open>draws\<close>, one
  pair per loop iteration, that is, one per element of \<open>pins_to_monitor\<close>.
\<close>

definition setup_simulation :: "(int \<times> datetime) list \<Rightarrow> monitor \<Rightarrow> monitor" where
  "setup_simulation draws s =
     fold (\<lambda>(pin, (level, t)) s.
             s\<lparr>pin_states := (pin_states s)(pin \<mapsto> level),
               last_transition_time := (last_transition_time s)(pin \<mapsto> t)\<rparr>)
          (zip (pins_to_monitor s) draws) s"

subsection \<open>get_pin_history (lines 181-194)\<close>

definition get_pin_history :: "datetime \<Rightarrow> int \<Rightarrow> int \<Rightarrow> monitor \<Rightarrow> py_error + entry list" where
  "get_pin_history now pin hours s =
     (case high_duration_history s pin of
        None \<Rightarrow> Inr []
      | Some d \<Rightarrow>
          (case timedelta_hours hours of
             Inl err \<Rightarrow> Inl err
           | Inr delta \<Rightarrow>
               (case datetime_sub now delta of
                  Inl err \<Rightarrow> Inl err
                | Inr cutoff_time \<Rightarrow> Inr (filter (\<lambda>e. cutoff_time \<le> timestamp e) d))))"

subsection \<open>reset_counters (lines 174-179)\<close>

definition reset_counters :: "monitor \<Rightarrow> monitor" where
  "reset_counters s =
     fold (\<lambda>pin s. s\<lparr>high_duration_history := (high_duration_history s)(pin \<mapsto> [])\<rparr>)
          (pins_to_monitor s) (s\<lparr>transition_counts := Map.empty\<rparr>)"

subsection \<open>_setup_gpio (lines 61-74)\<close>

text \<open>
  Each pin is set up and read once (\<open>reads\<close> has one element per monitored pin);
  \<open>None\<close> stands for an exception of
  \<^verbatim>\<open>GPIO.setup\<close> or \<^verbatim>\<open>GPIO.input\<close>. The handler of that exception calls
  \<^verbatim>\<open>self.logger.warning\<close>, and \<^verbatim>\<open>__init__\<close> assigns \<^verbatim>\<open>self.logger\<close> only after the
  setup (line 45), so the handler itself raises \<^verbatim>\<open>AttributeError\<close>.
\<close>

fun setup_gpio_loop :: "(int \<times> int option \<times> datetime) list \<Rightarrow> monitor \<Rightarrow> py_error + monitor" where
  "setup_gpio_loop [] s = Inr s"
| "setup_gpio_loop ((pin, r, t) # rest) s =
     (case r of
        None \<Rightarrow> Inl AttributeError
      | Some level \<Rightarrow>
          setup_gpio_loop rest
            (s\<lparr>pin_states := (pin_states s)(pin \<mapsto> level),
               last_transition_time := (last_transition_time s)(pin \<mapsto> t)\<rparr>))"

definition setup_gpio :: "(int option \<times> datetime) list \<Rightarrow> monitor \<Rightarrow> py_error + monitor" where
  "setup_gpio reads s = setup_gpio_loop (zip (pins_to_monitor s) reads) s"

text \<open>
  \<^verbatim>\<open>__init__\<close> (lines 20-45) with the configuration values already read: the state
  is initialised and the pins are set up, through the hardware when
  \<^verbatim>\<open>GPIO_AVAILABLE\<close> holds and by the simulation otherwise.
\<close>

definition GPIOMonitor_init ::
  "bool \<Rightarrow> int list \<Rightarrow> rat \<Rightarrow> int \<Rightarrow> (string \<rightharpoonup> string) \<Rightarrow>
   (int \<times> datetime) list \<Rightarrow> (int option \<times> datetime) list \<Rightarrow> py_error + monitor" where
  "GPIOMonitor_init gpio_available pins interval minutes labels draws reads =
     (if gpio_available then setup_gpio reads (init_monitor pins interval minutes labels)
      else Inr (setup_simulation draws (init_monitor pins interval minutes labels)))"

subsection \<open>One iteration of _monitor_loop (lines 107-147)\<close>

text \<open>
  What the loop body learns about one pin: with the hardware, \<^verbatim>\<open>GPIO.input\<close> raises
  (\<open>ReadError\<close>) or returns a level; in simulation mode a random draw below 0.01
  (\<open>Sim True\<close>) flips the stored level.
\<close>

datatype sample = ReadError | Level int | Sim bool

definition old_state_of :: "monitor \<Rightarrow> int \<Rightarrow> int" where
  "old_state_of s pin = (case pin_states s pin of None \<Rightarrow> 0 | Some v \<Rightarrow> v)"

definition read_pin :: "sample \<Rightarrow> int \<Rightarrow> int option" where
  "read_pin x old_state =
     (case x of
        ReadError \<Rightarrow> None
      | Level v \<Rightarrow> Some v
      | Sim flip \<Rightarrow> Some (if flip then 1 - old_state else old_state))"

definition record_transition :: "datetime \<Rightarrow> int \<Rightarrow> int \<Rightarrow> int \<Rightarrow> monitor \<Rightarrow> monitor" where
  "record_transition current_time pin old_state new_state s =
     (if new_state \<noteq> old_state then
        (let s1 = s\<lparr>pin_states := (pin_states s)(pin \<mapsto> new_state),
                     transition_counts := (transition_counts s)(pin \<mapsto> count_of s pin + 1),
                     last_transition_time := (last_transition_time s)(pin \<mapsto> current_time)\<rparr>
         in if old_state = 1 \<and> new_state = 0 then
              (case current_high_start s1 pin of
                 Some t0 \<Rightarrow>
                   s1\<lparr>high_duration_history := (high_duration_history s1)
                          (pin \<mapsto> deque_append HISTORY_MAXLEN (history_of s1 pin)
                                     \<lparr>timestamp = current_time, duration = current_time - t0\<rparr>),
                      current_high_start := (current_high_start s1)(pin := None)\<rparr>
               | None \<Rightarrow> s1)
            else if old_state = 0 \<and> new_state = 1 then
              s1\<lparr>current_high_start := (current_high_start s1)(pin \<mapsto> current_time)\<rparr>
            else s1)
      else s)"

definition process_pin :: "datetime \<Rightarrow> int \<Rightarrow> sample \<Rightarrow> monitor \<Rightarrow> monitor" where
  "process_pin current_time pin x s =
     (let old_state = old_state_of s pin
      in case read_pin x old_state of
           None \<Rightarrow> s
         | Some new_state \<Rightarrow> record_transition current_time pin old_state new_state s)"

text \<open>
  The \<^verbatim>\<open>for\<close> loop over the monitored pins under one reading \<open>current_time\<close> of the
  clock (line 107); \<open>samples\<close> has one sample per iteration, that is, one per element
  of \<open>pins_to_monitor\<close>.
\<close>

definition monitor_tick :: "datetime \<Rightarrow> sample list \<Rightarrow> monitor \<Rightarrow> monitor" where
  "monitor_tick current_time samples s =
     fold (\<lambda>(pin, x). process_pin current_time pin x) (zip (pins_to_monitor s) samples) s"

text \<open>
  The state of one line: its level, transition count, last transition time, pending
  high start and history.
\<close>

definition line_view ::
  "monitor \<Rightarrow> int \<Rightarrow> int option \<times> int option \<times> datetime option \<times> datetime option \<times> entry list option" where
  "line_view s pin =
     (pin_states s pin, transition_counts s pin, last_transition_time s pin,
      current_high_start s pin, high_duration_history s pin)"

subsection \<open>get_pin_status (lines 149-168)\<close>

fun str_nat :: "nat \<Rightarrow> string" where
  "str_nat n =
     (if n < 10 then [char_of (48 + n)] else str_nat (n div 10) @ [char_of (48 + n mod 10)])"

definition str_int :: "int \<Rightarrow> string" where
  "str_int i = (if i < 0 then CHR ''-'' # str_nat (nat (- i)) else str_nat (nat i))"

record pin_status =
  state :: int
  label :: string
  transitions :: int
  last_transition :: datetime
  current_high_duration :: timedelta
  recent_history :: "entry list"

definition last50 :: "'a list \<Rightarrow> 'a list" where
  "last50 xs = drop (length xs - 50) xs"

definition pin_status_of :: "datetime \<Rightarrow> monitor \<Rightarrow> int \<Rightarrow> pin_status" where
  "pin_status_of current_time s pin =
     \<lparr>state = old_state_of s pin,
      label = (case pin_labels s (str_int pin) of
                 None \<Rightarrow> ''GPIO '' @ str_int pin
               | Some l \<Rightarrow> l),
      transitions = count_of s pin,
      last_transition = (case last_transition_time s pin of
                           None \<Rightarrow> current_time
                         | Some t \<Rightarrow> t),
      current_high_duration =
        (case current_high_start s pin of
           None \<Rightarrow> 0
         | Some t0 \<Rightarrow> if pin_states s pin = Some 1 then current_time - t0 else 0),
      recent_history = last50 (history_of s pin)\<rparr>"

text \<open>
  Reading \<^verbatim>\<open>self.transition_counts[pin]\<close> and \<^verbatim>\<open>self.high_duration_history[pin]\<close>
  inserts the default for a missing key.
\<close>

definition touch_defaults :: "int \<Rightarrow> monitor \<Rightarrow> monitor" where
  "touch_defaults pin s =
     s\<lparr>transition_counts := (transition_counts s)(pin \<mapsto> count_of s pin),
       high_duration_history := (high_duration_history s)(pin \<mapsto> history_of s pin)\<rparr>"

text \<open>The result dict is keyed by \<^verbatim>\<open>str(pin)\<close>; the model keys it by the pin.\<close>

fun status_loop ::
  "datetime \<Rightarrow> int list \<Rightarrow> (int \<rightharpoonup> pin_status) \<Rightarrow> monitor \<Rightarrow> (int \<rightharpoonup> pin_status) \<times> monitor" where
  "status_loop current_time [] status s = (status, s)"
| "status_loop current_time (pin # pins) status s =
     status_loop current_time pins (status(pin \<mapsto> pin_status_of current_time s pin))
       (touch_defaults pin s)"

definition get_pin_status :: "datetime \<Rightarrow> monitor \<Rightarrow> (int \<rightharpoonup> pin_status) \<times> monitor" where
  "get_pin_status current_time s = status_loop current_time (pins_to_monitor s) Map.empty s"

subsection \<open>Starting and stopping (lines 83-102)\<close>

definition start_monitoring :: "monitor \<Rightarrow> monitor" where
  "start_monitoring s = (if monitoring s then s else s\<lparr>monitoring := True\<rparr>)"

definition stop_monitoring :: "monitor \<Rightarrow> monitor" where
  "stop_monitoring s = s\<lparr>monitoring := False\<rparr>"

subsection \<open>Runs of the monitor\<close>

text \<open>
  The operations that change the state, as events. An iteration of the sampling loop
  happens only while \<^verbatim>\<open>self.monitoring\<close> holds (line 106).
\<close>

datatype event =
    Tick datetime "sample list"
  | ResetCounters
  | GetPinStatus datetime
  | StartMonitoring
  | StopMonitoring

fun exec :: "event \<Rightarrow> monitor \<Rightarrow> monitor" where
  "exec (Tick t samples) s = (if monitoring s then monitor_tick t samples s else s)"
| "exec ResetCounters s = reset_counters s"
| "exec (GetPinStatus t) s = snd (get_pin_status t s)"
| "exec StartMonitoring s = start_monitoring s"
| "exec StopMonitoring s = stop_monitoring s"

definition run :: "event list \<Rightarrow> monitor \<Rightarrow> monitor" where
  "run evs s = fold exec evs s"



text \<open>The clock readings of the sampling loop's iterations, in order.\<close>

fun tick_times :: "event list \<Rightarrow> datetime list" where
  "tick_times [] = []"
| "tick_times (Tick t samples # evs) = t # tick_times evs"
| "tick_times (ev # evs) = tick_times evs"

text \<open>
  The edges the loop detects (the condition of line 127, logged at line 145), each
  with the pin, the old level, the new level and the iteration's \<^verbatim>\<open>current_time\<close>.
\<close>

type_synonym edge = "int \<times> int \<times> int \<times> datetime"

definition pin_edges :: "datetime \<Rightarrow> int \<Rightarrow> sample \<Rightarrow> monitor \<Rightarrow> edge list" where
  "pin_edges current_time pin x s =
     (let old_state = old_state_of s pin
      in case read_pin x old_state of
           None \<Rightarrow> []
         | Some new_state \<Rightarrow>
             if new_state \<noteq> old_state then [(pin, old_state, new_state, current_time)] else [])"

fun tick_edges :: "datetime \<Rightarrow> (int \<times> sample) list \<Rightarrow> monitor \<Rightarrow> edge list" where
  "tick_edges current_time [] s = []"
| "tick_edges current_time ((pin, x) # rest) s =
     pin_edges current_time pin x s @ tick_edges current_time rest (process_pin current_time pin x s)"

fun run_edges :: "event list \<Rightarrow> monitor \<Rightarrow> edge list" where
  "run_edges [] s = []"
| "run_edges (ev # evs) s =
     (case ev of
        Tick t samples \<Rightarrow>
          if monitoring s then tick_edges t (zip (pins_to_monitor s) samples) s else []
      | _ \<Rightarrow> [])
     @ run_edges evs (exec ev s)"

subsection \<open>Invariants of a run\<close>

text \<open>Every line with a pending high start is at level 1.\<close>

definition pending_is_high :: "monitor \<Rightarrow> bool" where
  "pending_is_high s = (\<forall>pin t0. current_high_start s pin = Some t0 \<longrightarrow> pin_states s pin = Some 1)"

text \<open>No history buffer is longer than the deque's bound.\<close>

definition history_bounded :: "monitor \<Rightarrow> bool" where
  "history_bounded s = (\<forall>pin. length (history_of s pin) \<le> HISTORY_MAXLEN)"

text \<open>Only monitored pins have a key in the history dict.\<close>

definition history_keys_monitored :: "monitor \<Rightarrow> bool" where
  "history_keys_monitored s = (dom (high_duration_history s) \<subseteq> set (pins_to_monitor s))"

text \<open>The rising and the falling edges of one line among the detected edges, in order.\<close>

definition line_edges :: "int \<Rightarrow> edge list \<Rightarrow> edge list" where
  "line_edges pin es =
     filter (\<lambda>(q, old_state, new_state, t).
               q = pin \<and> (old_state = 0 \<and> new_state = 1 \<or> old_state = 1 \<and> new_state = 0)) es"

text \<open>
  The detected edges \<open>es\<close> account for the state: a pending high start is the time
  of the line's latest rising or falling edge, which is a rising one; and a history
  entry ends at a falling edge of its line and starts at the rising edge that comes
  just before that falling edge among the line's rising and falling edges.
\<close>

definition explained_by :: "edge list \<Rightarrow> monitor \<Rightarrow> bool" where
  "explained_by es s =
     ((\<forall>pin t0. current_high_start s pin = Some t0 \<longrightarrow>
         line_edges pin es \<noteq> [] \<and> last (line_edges pin es) = (pin, 0, 1, t0)) \<and>
      (\<forall>pin e. e \<in> set (history_of s pin) \<longrightarrow>
         (\<exists>i. Suc i < length (line_edges pin es) \<and>
              line_edges pin es ! i = (pin, 0, 1, entry_start e) \<and>
              line_edges pin es ! Suc i = (pin, 1, 0, timestamp e))))"

text \<open>
  No recorded duration is negative, and no pending high start is later than any of
  the clock readings \<open>later\<close> that are still to come.
\<close>

definition durations_ok :: "datetime list \<Rightarrow> monitor \<Rightarrow> bool" where
  "durations_ok later s =
     ((\<forall>pin t0. current_high_start s pin = Some t0 \<longrightarrow> (\<forall>u\<in>set later. t0 \<le> u)) \<and>
      (\<forall>pin e. e \<in> set (history_of s pin) \<longrightarrow> 0 \<le> duration e))"

text \<open>
  A step that changes no level and no pending start, and leaves each history as it
  was or empty.
\<close>

definition quiet_step :: "monitor \<Rightarrow> monitor \<Rightarrow> bool" where
  "quiet_step s s' =
     (current_high_start s' = current_high_start s \<and> pin_states s' = pin_states s \<and>
      (\<forall>pin. history_of s' pin = history_of s pin \<or> history_of s' pin = []))"

section \<open>Configuration loading (_load_config, lines 47-59)\<close>

text \<open>
  The value \<^verbatim>\<open>json.load\<close> returns. A float literal is kept as the decimal fraction
  it is written as.
\<close>

datatype json =
    JNull
  | JBool bool
  | JInt int
  | JFloat rat
  | JString string
  | JArray "json list"
  | JObject "(string \<times> json) list"

definition default_config :: json where
  "default_config =
     JObject [(''pins_to_monitor'', JArray (map JInt [2..27])),
              (''update_interval'', JFloat (1 / 10)),
              (''history_duration_minutes'', JInt 60),
              (''pin_labels'', JObject [])]"

text \<open>
  What is at the path of the configuration file: nothing, a text that is not JSON, or
  the JSON text of a value. \<^verbatim>\<open>open\<close> raises \<^verbatim>\<open>FileNotFoundError\<close> in the first case
  and \<^verbatim>\<open>json.load\<close> raises \<^verbatim>\<open>json.JSONDecodeError\<close> in the second.
\<close>

datatype config_file = Missing | Malformed | Wellformed json

definition read_config :: "config_file \<Rightarrow> py_error + json" where
  "read_config file =
     (case file of
        Missing \<Rightarrow> Inl FileNotFoundError
      | Malformed \<Rightarrow> Inl JSONDecodeError
      | Wellformed cfg \<Rightarrow> Inr cfg)"

text \<open>The \<^verbatim>\<open>try\<close> statement: only \<^verbatim>\<open>FileNotFoundError\<close> has a handler.\<close>

definition load_config :: "config_file \<Rightarrow> py_error + json" where
  "load_config file =
     (case read_config file of
        Inl err \<Rightarrow> (if err = FileNotFoundError then Inr default_config else Inl err)
      | Inr cfg \<Rightarrow> Inr cfg)"

text \<open>\<^verbatim>\<open>self.config.get(key, default)\<close> of \<^verbatim>\<open>__init__\<close>; only a dict has \<^verbatim>\<open>get\<close>.\<close>

definition config_get :: "json \<Rightarrow> string \<Rightarrow> json \<Rightarrow> py_error + json" where
  "config_get cfg key dflt =
     (case cfg of
        JObject kvs \<Rightarrow> Inr (case map_of kvs key of None \<Rightarrow> dflt | Some v \<Rightarrow> v)
      | _ \<Rightarrow> Inl AttributeError)"

section \<open>The state change callback (web_server.py, lines 38-41)\<close>

text \<open>
  The names an instance of \<^verbatim>\<open>GPIOMonitor\<close> answers to: the attributes assigned in
  \<^verbatim>\<open>__init__\<close> and the methods of the class. Any other name raises
  \<^verbatim>\<open>AttributeError\<close>.
\<close>

definition GPIOMonitor_attributes :: "string list" where
  "GPIOMonitor_attributes =
     [''config'', ''pins_to_monitor'', ''update_interval'', ''history_duration'',
      ''pin_states'', ''pin_labels'', ''transition_counts'', ''last_transition_time'',
      ''high_duration_history'', ''current_high_start'', ''monitoring'', ''monitor_thread'',
      ''logger'']"

definition GPIOMonitor_methods :: "string list" where
  "GPIOMonitor_methods =
     [''__init__'', ''_load_config'', ''_setup_gpio'', ''_setup_simulation'',
      ''start_monitoring'', ''stop_monitoring'', ''_monitor_loop'', ''get_pin_status'',
      ''get_transition_summary'', ''reset_counters'', ''get_pin_history'']"

definition getattr_GPIOMonitor :: "string \<Rightarrow> py_error + string" where
  "getattr_GPIOMonitor name =
     (if name \<in> set (GPIOMonitor_attributes @ GPIOMonitor_methods) then Inr name
      else Inl AttributeError)"

text \<open>
  \<^verbatim>\<open>WebServer.__init__\<close> registers its listener with
  \<^verbatim>\<open>self.gpio_monitor.set_state_change_callback(self._on_gpio_state_change)\<close>.
\<close>

definition register_state_change_callback :: "py_error + string" where
  "register_state_change_callback = getattr_GPIOMonitor ''set_state_change_callback''"

section \<open>Properties of the embedding\<close>

subsection \<open>The fields after a transition\<close>

lemma rt_pins [simp]: "pins_to_monitor (record_transition t p old new s) = pins_to_monitor s"
  by (simp add: record_transition_def Let_def split: option.splits)

lemma rt_monitoring [simp]: "monitoring (record_transition t p old new s) = monitoring s"
  by (simp add: record_transition_def Let_def split: option.splits)

lemma rt_pin_states:
  "pin_states (record_transition t p old new s) =
     (if new \<noteq> old then (pin_states s)(p \<mapsto> new) else pin_states s)"
  by (simp add: record_transition_def Let_def split: option.splits)

lemma rt_transition_counts:
  "transition_counts (record_transition t p old new s) =
     (if new \<noteq> old then (transition_counts s)(p \<mapsto> count_of s p + 1) else transition_counts s)"
  by (simp add: record_transition_def Let_def split: option.splits)

lemma rt_last_transition_time:
  "last_transition_time (record_transition t p old new s) =
     (if new \<noteq> old then (last_transition_time s)(p \<mapsto> t) else last_transition_time s)"
  by (simp add: record_transition_def Let_def split: option.splits)

lemma rt_current_high_start:
  "current_high_start (record_transition t p old new s) =
     (if new \<noteq> old \<and> old = 1 \<and> new = 0 then (current_high_start s)(p := None)
      else if new \<noteq> old \<and> old = 0 \<and> new = 1 then (current_high_start s)(p \<mapsto> t)
      else current_high_start s)"
  by (auto simp add: record_transition_def Let_def split: option.splits)

lemma rt_high_duration_history:
  "high_duration_history (record_transition t p old new s) =
     (if old = 1 \<and> new = 0 then
        (case current_high_start s p of
           None \<Rightarrow> high_duration_history s
         | Some t0 \<Rightarrow> (high_duration_history s)
             (p \<mapsto> deque_append HISTORY_MAXLEN (history_of s p) \<lparr>timestamp = t, duration = t - t0\<rparr>))
      else high_duration_history s)"
  by (auto simp add: record_transition_def Let_def history_of_def split: option.splits)


lemmas rt_fields = rt_pin_states rt_transition_counts rt_last_transition_time
  rt_current_high_start rt_high_duration_history

lemma process_pin_pins [simp]: "pins_to_monitor (process_pin t p x s) = pins_to_monitor s"
  by (simp add: process_pin_def Let_def split: option.splits)

lemma process_pin_monitoring [simp]: "monitoring (process_pin t p x s) = monitoring s"
  by (simp add: process_pin_def Let_def split: option.splits)

lemma process_pin_ReadError [simp]: "process_pin t p ReadError s = s"
  by (simp add: process_pin_def read_pin_def)

lemma process_pin_other:
  "q \<noteq> p \<Longrightarrow> line_view (process_pin t p x s) q = line_view s q"
  by (simp add: process_pin_def line_view_def Let_def rt_fields split: option.splits)

lemma line_view_eqD:
  "line_view s p = line_view s' p \<Longrightarrow>
     pin_states s p = pin_states s' p \<and> transition_counts s p = transition_counts s' p \<and>
     last_transition_time s p = last_transition_time s' p \<and>
     current_high_start s p = current_high_start s' p \<and>
     high_duration_history s p = high_duration_history s' p"
  by (simp add: line_view_def)

lemma process_pin_cong:
  assumes "line_view s p = line_view s' p"
  shows "line_view (process_pin t p x s) p = line_view (process_pin t p x s') p"
proof -
  note eqs = line_view_eqD[OF assms]
  have old: "old_state_of s p = old_state_of s' p" using eqs by (simp add: old_state_of_def)
  have cnt: "count_of s p = count_of s' p" using eqs by (simp add: count_of_def)
  have hist: "history_of s p = history_of s' p" using eqs by (simp add: history_of_def)
  show ?thesis
  proof (cases "read_pin x (old_state_of s' p)")
    case None
    then show ?thesis using assms old by (simp add: process_pin_def)
  next
    case (Some new)
    then show ?thesis using eqs old cnt hist
      by (auto simp add: process_pin_def line_view_def rt_fields split: option.splits)
  qed
qed

subsection \<open>A tick acts on each line separately\<close>

lemma fold_process_agree:
  assumes "list_all2 (\<lambda>a b. fst a = fst b \<and> (fst a \<noteq> bad \<longrightarrow> snd a = snd b)) ps ps'"
    and "q \<noteq> bad" and "line_view s q = line_view s' q"
  shows "line_view (fold (\<lambda>(pin, x). process_pin t pin x) ps s) q =
         line_view (fold (\<lambda>(pin, x). process_pin t pin x) ps' s') q"
  using assms
proof (induction ps ps' arbitrary: s s' rule: list_all2_induct)
  case Nil
  then show ?case by simp
next
  case (Cons a ps b ps')
  obtain p x where a: "a = (p, x)" by (cases a)
  obtain x' where b: "b = (p, x')" using Cons.hyps(1) a by (cases b) simp
  have step: "line_view (process_pin t p x s) q = line_view (process_pin t p x' s') q"
  proof (cases "p = q")
    case True
    then have "x = x'" using Cons.hyps(1) Cons.prems(1) a b by simp
    with True show ?thesis using process_pin_cong[OF Cons.prems(2)] by simp
  next
    case False
    then have "line_view (process_pin t p x s) q = line_view s q"
      "line_view (process_pin t p x' s') q = line_view s' q"
      by (simp_all add: process_pin_other)
    then show ?thesis using Cons.prems(2) by simp
  qed
  have "line_view (fold (\<lambda>(pin, x). process_pin t pin x) ps (process_pin t p x s)) q =
        line_view (fold (\<lambda>(pin, x). process_pin t pin x) ps' (process_pin t p x' s')) q"
    by (rule Cons.IH[OF Cons.prems(1) step])
  then show ?case by (simp add: a b)
qed

lemma fold_process_skip:
  assumes "\<forall>a\<in>set ps. fst a = bad \<longrightarrow> snd a = ReadError"
  shows "line_view (fold (\<lambda>(pin, x). process_pin t pin x) ps s) bad = line_view s bad"
  using assms
proof (induction ps arbitrary: s)
  case Nil
  then show ?case by simp
next
  case (Cons a ps)
  obtain p x where a: "a = (p, x)" by (cases a)
  have step: "line_view (process_pin t p x s) bad = line_view s bad"
  proof (cases "p = bad")
    case True
    then show ?thesis using Cons.prems a by simp
  next
    case False
    then show ?thesis by (simp add: process_pin_other)
  qed
  have "\<forall>a\<in>set ps. fst a = bad \<longrightarrow> snd a = ReadError" using Cons.prems by simp
  then have "line_view (fold (\<lambda>(pin, x). process_pin t pin x) ps (process_pin t p x s)) bad =
             line_view (process_pin t p x s) bad"
    by (rule Cons.IH)
  then show ?case using step by (simp add: a)
qed



subsection \<open>reset_counters and get_pin_status, field by field\<close>

lemma clear_fold_fields:
  "pins_to_monitor (fold (\<lambda>pin s. s\<lparr>high_duration_history := (high_duration_history s)(pin \<mapsto> [])\<rparr>) pins s) = pins_to_monitor s"
  "update_interval (fold (\<lambda>pin s. s\<lparr>high_duration_history := (high_duration_history s)(pin \<mapsto> [])\<rparr>) pins s) = update_interval s"
  "history_duration (fold (\<lambda>pin s. s\<lparr>high_duration_history := (high_duration_history s)(pin \<mapsto> [])\<rparr>) pins s) = history_duration s"
  "pin_states (fold (\<lambda>pin s. s\<lparr>high_duration_history := (high_duration_history s)(pin \<mapsto> [])\<rparr>) pins s) = pin_states s"
  "pin_labels (fold (\<lambda>pin s. s\<lparr>high_duration_history := (high_duration_history s)(pin \<mapsto> [])\<rparr>) pins s) = pin_labels s"
  "transition_counts (fold (\<lambda>pin s. s\<lparr>high_duration_history := (high_duration_history s)(pin \<mapsto> [])\<rparr>) pins s) = transition_counts s"
  "last_transition_time (fold (\<lambda>pin s. s\<lparr>high_duration_history := (high_duration_history s)(pin \<mapsto> [])\<rparr>) pins s) = last_transition_time s"
  "current_high_start (fold (\<lambda>pin s. s\<lparr>high_duration_history := (high_duration_history s)(pin \<mapsto> [])\<rparr>) pins s) = current_high_start s"
  "monitoring (fold (\<lambda>pin s. s\<lparr>high_duration_history := (high_duration_history s)(pin \<mapsto> [])\<rparr>) pins s) = monitoring s"
  by (induction pins arbitrary: s; simp)+

lemma clear_fold_history:
  "high_duration_history (fold (\<lambda>pin s. s\<lparr>high_duration_history := (high_duration_history s)(pin \<mapsto> [])\<rparr>) pins s) p =
     (if p \<in> set pins then Some [] else high_duration_history s p)"
  by (induction pins arbitrary: s) auto

lemma reset_counters_fields:
  "pins_to_monitor (reset_counters s) = pins_to_monitor s"
  "update_interval (reset_counters s) = update_interval s"
  "history_duration (reset_counters s) = history_duration s"
  "pin_states (reset_counters s) = pin_states s"
  "pin_labels (reset_counters s) = pin_labels s"
  "last_transition_time (reset_counters s) = last_transition_time s"
  "current_high_start (reset_counters s) = current_high_start s"
  "monitoring (reset_counters s) = monitoring s"
  "transition_counts (reset_counters s) = Map.empty"
  by (simp_all add: reset_counters_def clear_fold_fields)

lemma reset_counters_history:
  "high_duration_history (reset_counters s) p =
     (if p \<in> set (pins_to_monitor s) then Some [] else high_duration_history s p)"
  by (simp add: reset_counters_def clear_fold_history)

lemma touch_fold_fields:
  "pins_to_monitor (fold touch_defaults pins s) = pins_to_monitor s"
  "pin_states (fold touch_defaults pins s) = pin_states s"
  "pin_labels (fold touch_defaults pins s) = pin_labels s"
  "last_transition_time (fold touch_defaults pins s) = last_transition_time s"
  "current_high_start (fold touch_defaults pins s) = current_high_start s"
  "monitoring (fold touch_defaults pins s) = monitoring s"
  by (induction pins arbitrary: s; simp add: touch_defaults_def)+

lemma touch_history_of [simp]: "history_of (touch_defaults q s) p = history_of s p"
  by (simp add: touch_defaults_def history_of_def)

lemma touch_count_of [simp]: "count_of (touch_defaults q s) p = count_of s p"
  by (simp add: touch_defaults_def count_of_def)

lemma touch_fold_history_of [simp]: "history_of (fold touch_defaults pins s) p = history_of s p"
  by (induction pins arbitrary: s) simp_all

lemma touch_fold_count_of [simp]: "count_of (fold touch_defaults pins s) p = count_of s p"
  by (induction pins arbitrary: s) simp_all

lemma touch_fields [simp]:
  "pins_to_monitor (touch_defaults q s) = pins_to_monitor s"
  "pin_states (touch_defaults q s) = pin_states s"
  "pin_labels (touch_defaults q s) = pin_labels s"
  "last_transition_time (touch_defaults q s) = last_transition_time s"
  "current_high_start (touch_defaults q s) = current_high_start s"
  "monitoring (touch_defaults q s) = monitoring s"
  by (simp_all add: touch_defaults_def)

lemma pin_status_of_touch [simp]:
  "pin_status_of t (touch_defaults q s) p = pin_status_of t s p"
  by (simp add: pin_status_of_def old_state_of_def split: option.splits)

lemma status_loop_eq:
  "status_loop t pins st s =
     (\<lambda>p. if p \<in> set pins then Some (pin_status_of t s p) else st p, fold touch_defaults pins s)"
proof (induction pins arbitrary: st s)
  case Nil
  then show ?case by simp
next
  case (Cons q pins)
  show ?case by (simp add: Cons.IH) (rule ext, simp)
qed

lemma get_pin_status_eq:
  "get_pin_status t s =
     (\<lambda>p. if p \<in> set (pins_to_monitor s) then Some (pin_status_of t s p) else None,
      fold touch_defaults (pins_to_monitor s) s)"
  by (simp add: get_pin_status_def status_loop_eq)

subsection \<open>What one step of the loop can change\<close>

lemma set_deque_append: "set (deque_append n xs x) \<subseteq> insert x (set xs)"
proof -
  have "set (tl (xs @ [x])) \<subseteq> set (xs @ [x])" by (rule list.set_sel(2)[THEN subsetI]) simp
  then show ?thesis by (auto simp: deque_append_def Let_def)
qed

lemma process_pin_history_cases:
  "history_of (process_pin t p x s) q = history_of s q \<or>
   (q = p \<and> (\<exists>t0. current_high_start s p = Some t0 \<and> pin_edges t p x s = [(p, 1, 0, t)] \<and>
      history_of (process_pin t p x s) p =
        deque_append HISTORY_MAXLEN (history_of s p) \<lparr>timestamp = t, duration = t - t0\<rparr>))"
proof (cases "read_pin x (old_state_of s p)")
  case None
  then show ?thesis by (simp add: process_pin_def)
next
  case (Some new)
  then show ?thesis
    by (auto simp add: process_pin_def pin_edges_def history_of_def rt_high_duration_history
        split: option.splits)
qed

lemma line_edges_append [simp]: "line_edges q (es @ es') = line_edges q es @ line_edges q es'"
  by (simp add: line_edges_def)

lemma line_edges_Nil [simp]: "line_edges q [] = []"
  by (simp add: line_edges_def)

lemma line_edges_single:
  "line_edges q [(p, old, new, t)] =
     (if q = p \<and> (old = 0 \<and> new = 1 \<or> old = 1 \<and> new = 0) then [(p, old, new, t)] else [])"
  by (simp add: line_edges_def)

lemma process_pin_pending_cases:
  assumes "current_high_start (process_pin t p x s) q = Some t0"
  shows "(current_high_start s q = Some t0 \<and> line_edges q (pin_edges t p x s) = []) \<or>
         (q = p \<and> t0 = t \<and> pin_edges t p x s = [(p, 0, 1, t)])"
proof (cases "read_pin x (old_state_of s p)")
  case None
  then show ?thesis using assms by (simp add: process_pin_def pin_edges_def)
next
  case (Some new)
  then show ?thesis using assms
    by (auto simp add: process_pin_def pin_edges_def rt_current_high_start line_edges_single
        Let_def split: if_splits)
qed



lemma history_bounded_process_pin:
  assumes "history_bounded s"
  shows "history_bounded (process_pin t p x s)"
  unfolding history_bounded_def
proof
  fix q
  have len: "length (history_of s r) \<le> HISTORY_MAXLEN" for r
    using assms by (simp add: history_bounded_def)
  have "length (history_of s q) \<le> HISTORY_MAXLEN" by (rule len)
  moreover have "length (deque_append HISTORY_MAXLEN (history_of s p) e) \<le> HISTORY_MAXLEN" for e
    using len[of p] by (simp add: deque_append_def Let_def)
  ultimately show "length (history_of (process_pin t p x s) q) \<le> HISTORY_MAXLEN"
    using process_pin_history_cases[of t p x s q] by auto
qed

subsection \<open>The invariants along one tick\<close>

lemma explained_by_process_pin:
  assumes "explained_by es s"
  shows "explained_by (es @ pin_edges t p x s) (process_pin t p x s)"
  unfolding explained_by_def
proof (intro conjI allI impI)
  fix q t0 assume "current_high_start (process_pin t p x s) q = Some t0"
  from process_pin_pending_cases[OF this]
  show "line_edges q (es @ pin_edges t p x s) \<noteq> []"
    "last (line_edges q (es @ pin_edges t p x s)) = (q, 0, 1, t0)"
    using assms by (auto simp: explained_by_def line_edges_single)
next
  fix q e assume e: "e \<in> set (history_of (process_pin t p x s) q)"
  have old: "\<exists>i. Suc i < length (line_edges q (es @ pin_edges t p x s)) \<and>
              line_edges q (es @ pin_edges t p x s) ! i = (q, 0, 1, entry_start e) \<and>
              line_edges q (es @ pin_edges t p x s) ! Suc i = (q, 1, 0, timestamp e)"
    if mem: "e \<in> set (history_of s q)"
  proof -
    obtain i where i: "Suc i < length (line_edges q es)"
      "line_edges q es ! i = (q, 0, 1, entry_start e)"
      "line_edges q es ! Suc i = (q, 1, 0, timestamp e)"
      using assms mem unfolding explained_by_def by blast
    then have "Suc i < length (line_edges q (es @ pin_edges t p x s))"
      "line_edges q (es @ pin_edges t p x s) ! i = (q, 0, 1, entry_start e)"
      "line_edges q (es @ pin_edges t p x s) ! Suc i = (q, 1, 0, timestamp e)"
      by (simp_all add: nth_append)
    then show ?thesis by blast
  qed
  consider (same) "history_of (process_pin t p x s) q = history_of s q"
    | (new) t0 where "q = p" "current_high_start s p = Some t0"
        "pin_edges t p x s = [(p, 1, 0, t)]"
        "history_of (process_pin t p x s) p =
           deque_append HISTORY_MAXLEN (history_of s p) \<lparr>timestamp = t, duration = t - t0\<rparr>"
    using process_pin_history_cases[of t p x s q] by blast
  then show "\<exists>i. Suc i < length (line_edges q (es @ pin_edges t p x s)) \<and>
              line_edges q (es @ pin_edges t p x s) ! i = (q, 0, 1, entry_start e) \<and>
              line_edges q (es @ pin_edges t p x s) ! Suc i = (q, 1, 0, timestamp e)"
  proof cases
    case same
    then show ?thesis using e old by simp
  next
    case new
    then have "e = \<lparr>timestamp = t, duration = t - t0\<rparr> \<or> e \<in> set (history_of s p)"
      using e set_deque_append[of HISTORY_MAXLEN "history_of s p"] by auto
    then show ?thesis
    proof
      assume en: "e = \<lparr>timestamp = t, duration = t - t0\<rparr>"
      let ?l = "line_edges p es"
      have l: "?l \<noteq> []" "last ?l = (p, 0, 1, t0)"
        using assms new(2) by (simp_all add: explained_by_def)
      then obtain i where len: "length ?l = Suc i" by (cases ?l) simp_all
      have "?l ! i = (p, 0, 1, t0)" using l len by (simp add: last_conv_nth)
      moreover have "line_edges p (es @ pin_edges t p x s) = ?l @ [(p, 1, 0, t)]"
        using new(3) by (simp add: line_edges_single)
      ultimately have "Suc i < length (line_edges p (es @ pin_edges t p x s)) \<and>
              line_edges p (es @ pin_edges t p x s) ! i = (p, 0, 1, entry_start e) \<and>
              line_edges p (es @ pin_edges t p x s) ! Suc i = (p, 1, 0, timestamp e)"
        using len en by (simp add: nth_append entry_start_def)
      then show ?thesis using new(1) by blast
    next
      assume "e \<in> set (history_of s p)"
      then show ?thesis using new(1) old by simp
    qed
  qed
qed

lemma explained_by_fold:
  "explained_by es s \<Longrightarrow>
   explained_by (es @ tick_edges t ps s) (fold (\<lambda>(pin, x). process_pin t pin x) ps s)"
proof (induction ps arbitrary: es s)
  case Nil
  then show ?case by simp
next
  case (Cons a ps)
  obtain p x where a: "a = (p, x)" by (cases a)
  have "explained_by (es @ pin_edges t p x s) (process_pin t p x s)"
    by (rule explained_by_process_pin[OF Cons.prems])
  from Cons.IH[OF this] show ?case by (simp add: a)
qed

lemma durations_ok_process_pin:
  assumes "durations_ok (t # later) s" "sorted (t # later)"
  shows "durations_ok (t # later) (process_pin t p x s)"
  unfolding durations_ok_def
proof (intro conjI allI impI)
  fix q t0 assume "current_high_start (process_pin t p x s) q = Some t0"
  from process_pin_pending_cases[OF this]
  show "\<forall>u\<in>set (t # later). t0 \<le> u"
    using assms by (auto simp: durations_ok_def)
next
  fix q e assume e: "e \<in> set (history_of (process_pin t p x s) q)"
  consider (same) "history_of (process_pin t p x s) q = history_of s q"
    | (new) t0 where "q = p" "current_high_start s p = Some t0"
        "history_of (process_pin t p x s) p =
           deque_append HISTORY_MAXLEN (history_of s p) \<lparr>timestamp = t, duration = t - t0\<rparr>"
    using process_pin_history_cases[of t p x s q] by blast
  then show "0 \<le> duration e"
  proof cases
    case same
    then show ?thesis using e assms(1) by (auto simp: durations_ok_def)
  next
    case new
    then have "e = \<lparr>timestamp = t, duration = t - t0\<rparr> \<or> e \<in> set (history_of s p)"
      using e set_deque_append[of HISTORY_MAXLEN "history_of s p"] by auto
    moreover have "t0 \<le> t" using new(2) assms(1) by (auto simp: durations_ok_def)
    ultimately show ?thesis using assms(1) by (auto simp: durations_ok_def)
  qed
qed

lemma durations_ok_fold:
  "durations_ok (t # later) s \<Longrightarrow> sorted (t # later) \<Longrightarrow>
   durations_ok (t # later) (fold (\<lambda>(pin, x). process_pin t pin x) ps s)"
proof (induction ps arbitrary: s)
  case Nil
  then show ?case by simp
next
  case (Cons a ps)
  obtain p x where a: "a = (p, x)" by (cases a)
  have "durations_ok (t # later) (process_pin t p x s)"
    by (rule durations_ok_process_pin[OF Cons.prems])
  from Cons.IH[OF this Cons.prems(2)] show ?case by (simp add: a)
qed

lemma durations_ok_tail: "durations_ok (t # later) s \<Longrightarrow> durations_ok later s"
  by (simp add: durations_ok_def)


lemma history_bounded_fold:
  "history_bounded s \<Longrightarrow> history_bounded (fold (\<lambda>(pin, x). process_pin t pin x) ps s)"
proof (induction ps arbitrary: s)
  case Nil
  then show ?case by simp
next
  case (Cons a ps)
  obtain p x where a: "a = (p, x)" by (cases a)
  have "history_bounded (process_pin t p x s)"
    by (rule history_bounded_process_pin[OF Cons.prems])
  from Cons.IH[OF this] show ?case by (simp add: a)
qed

subsection \<open>Steps that are not ticks\<close>

lemma quiet_step_refl: "quiet_step s s"
  by (simp add: quiet_step_def)

lemma quiet_step_reset: "quiet_step s (reset_counters s)"
  by (simp add: quiet_step_def reset_counters_fields history_of_def reset_counters_history)

lemma quiet_step_status: "quiet_step s (snd (get_pin_status t s))"
  by (simp add: quiet_step_def get_pin_status_eq touch_fold_fields)

lemma quiet_step_start: "quiet_step s (start_monitoring s)"
  by (simp add: quiet_step_def start_monitoring_def history_of_def)

lemma quiet_step_stop: "quiet_step s (stop_monitoring s)"
  by (simp add: quiet_step_def stop_monitoring_def history_of_def)

lemma exec_cases:
  "quiet_step s (exec ev s) \<or>
   (\<exists>t samples. ev = Tick t samples \<and> monitoring s \<and>
      exec ev s = fold (\<lambda>(pin, x). process_pin t pin x) (zip (pins_to_monitor s) samples) s)"
  by (cases ev)
     (simp_all add: quiet_step_refl quiet_step_reset quiet_step_status quiet_step_start
        quiet_step_stop monitor_tick_def)

lemma quiet_history_subset:
  assumes "quiet_step s s'" "e \<in> set (history_of s' p)"
  shows "e \<in> set (history_of s p)"
proof -
  have "history_of s' p = history_of s p \<or> history_of s' p = []"
    using assms(1) by (simp add: quiet_step_def)
  then show ?thesis using assms(2) by auto
qed

lemma quiet_pending: "quiet_step s s' \<Longrightarrow> current_high_start s' = current_high_start s"
  by (simp add: quiet_step_def)


lemma history_bounded_quiet:
  assumes "history_bounded s" "quiet_step s s'"
  shows "history_bounded s'"
  unfolding history_bounded_def
proof
  fix p
  have "history_of s' p = history_of s p \<or> history_of s' p = []"
    using assms(2) by (simp add: quiet_step_def)
  moreover have "length (history_of s p) \<le> HISTORY_MAXLEN"
    using assms(1) by (simp add: history_bounded_def)
  ultimately show "length (history_of s' p) \<le> HISTORY_MAXLEN" by auto
qed

lemma explained_by_quiet:
  assumes "explained_by es s" "quiet_step s s'"
  shows "explained_by es s'"
  unfolding explained_by_def
proof (intro conjI allI impI)
  fix p t0 assume "current_high_start s' p = Some t0"
  then show "line_edges p es \<noteq> []" "last (line_edges p es) = (p, 0, 1, t0)"
    using assms(1) quiet_pending[OF assms(2)] by (simp_all add: explained_by_def)
next
  fix p e assume "e \<in> set (history_of s' p)"
  then have "e \<in> set (history_of s p)" by (rule quiet_history_subset[OF assms(2)])
  then show "\<exists>i. Suc i < length (line_edges p es) \<and>
              line_edges p es ! i = (p, 0, 1, entry_start e) \<and>
              line_edges p es ! Suc i = (p, 1, 0, timestamp e)"
    using assms(1) unfolding explained_by_def by blast
qed

lemma durations_ok_quiet:
  assumes "durations_ok later s" "quiet_step s s'"
  shows "durations_ok later s'"
  unfolding durations_ok_def
proof (intro conjI allI impI)
  fix p t0 assume "current_high_start s' p = Some t0"
  then show "\<forall>u\<in>set later. t0 \<le> u"
    using assms(1) quiet_pending[OF assms(2)] by (simp add: durations_ok_def)
next
  fix p e assume "e \<in> set (history_of s' p)"
  then have "e \<in> set (history_of s p)" by (rule quiet_history_subset[OF assms(2)])
  then show "0 \<le> duration e"
    using assms(1) by (simp add: durations_ok_def)
qed

subsection \<open>The invariants along a run\<close>

lemma run_Nil [simp]: "run [] s = s"
  by (simp add: run_def)

lemma run_Cons [simp]: "run (ev # evs) s = run evs (exec ev s)"
  by (simp add: run_def)



lemma history_bounded_exec: "history_bounded s \<Longrightarrow> history_bounded (exec ev s)"
  using exec_cases[of s ev] history_bounded_quiet[of s "exec ev s"]
    history_bounded_fold[of s]
  by auto

lemma history_bounded_run: "history_bounded s \<Longrightarrow> history_bounded (run evs s)"
proof (induction evs arbitrary: s)
  case Nil
  then show ?case by simp
next
  case (Cons ev evs)
  have "history_bounded (exec ev s)" by (rule history_bounded_exec[OF Cons.prems])
  from Cons.IH[OF this] show ?case by simp
qed

lemma explained_by_run:
  "explained_by es s \<Longrightarrow> explained_by (es @ run_edges evs s) (run evs s)"
proof (induction evs arbitrary: es s)
  case Nil
  then show ?case by simp
next
  case (Cons ev evs)
  let ?new = "(case ev of
        Tick t samples \<Rightarrow>
          if monitoring s then tick_edges t (zip (pins_to_monitor s) samples) s else []
      | _ \<Rightarrow> [])"
  have "explained_by (es @ ?new) (exec ev s)"
  proof (cases ev)
    case (Tick t samples)
    show ?thesis
    proof (cases "monitoring s")
      case True
      then show ?thesis using Tick explained_by_fold[OF Cons.prems]
        by (simp add: monitor_tick_def)
    next
      case False
      then show ?thesis using Tick Cons.prems by simp
    qed
  next
    case ResetCounters
    then show ?thesis using explained_by_quiet[OF Cons.prems quiet_step_reset] by simp
  next
    case (GetPinStatus t)
    then show ?thesis using explained_by_quiet[OF Cons.prems quiet_step_status] by simp
  next
    case StartMonitoring
    then show ?thesis using explained_by_quiet[OF Cons.prems quiet_step_start] by simp
  next
    case StopMonitoring
    then show ?thesis using explained_by_quiet[OF Cons.prems quiet_step_stop] by simp
  qed
  from Cons.IH[OF this] show ?case by simp
qed

lemma durations_ok_run:
  "durations_ok (tick_times evs) s \<Longrightarrow> sorted (tick_times evs) \<Longrightarrow>
   durations_ok [] (run evs s)"
proof (induction evs arbitrary: s)
  case Nil
  then show ?case by simp
next
  case (Cons ev evs)
  have "durations_ok (tick_times evs) (exec ev s) \<and> sorted (tick_times evs)"
  proof (cases ev)
    case (Tick t samples)
    then have tt: "tick_times (ev # evs) = t # tick_times evs" by simp
    have "durations_ok (t # tick_times evs) (exec ev s)"
    proof (cases "monitoring s")
      case True
      then show ?thesis using Cons.prems Tick tt
        by (simp add: monitor_tick_def durations_ok_fold)
    next
      case False
      then show ?thesis using Cons.prems(1) Tick tt by simp
    qed
    then show ?thesis using Cons.prems(2) tt by (simp add: durations_ok_tail)
  next
    case ResetCounters
    then show ?thesis using Cons.prems durations_ok_quiet[OF _ quiet_step_reset] by simp
  next
    case (GetPinStatus t)
    then show ?thesis using Cons.prems durations_ok_quiet[OF _ quiet_step_status] by simp
  next
    case StartMonitoring
    then show ?thesis using Cons.prems durations_ok_quiet[OF _ quiet_step_start] by simp
  next
    case StopMonitoring
    then show ?thesis using Cons.prems durations_ok_quiet[OF _ quiet_step_stop] by simp
  qed
  then have "durations_ok [] (run evs (exec ev s))" using Cons.IH by blast
  then show ?case by simp
qed

lemma setup_simulation_fold_fields:
  "current_high_start (fold (\<lambda>(pin, (level, t)) s.
             s\<lparr>pin_states := (pin_states s)(pin \<mapsto> level),
               last_transition_time := (last_transition_time s)(pin \<mapsto> t)\<rparr>) ps s) = current_high_start s"
  "high_duration_history (fold (\<lambda>(pin, (level, t)) s.
             s\<lparr>pin_states := (pin_states s)(pin \<mapsto> level),
               last_transition_time := (last_transition_time s)(pin \<mapsto> t)\<rparr>) ps s) = high_duration_history s"
  by (induction ps arbitrary: s; simp add: split_beta)+

lemma setup_gpio_loop_fields:
  "setup_gpio_loop ps s = Inr s' \<Longrightarrow>
     current_high_start s' = current_high_start s \<and>
     high_duration_history s' = high_duration_history s"
proof (induction ps s rule: setup_gpio_loop.induct)
  case (1 s)
  then show ?case by simp
next
  case (2 pin r t rest s)
  then show ?case by (cases r) simp_all
qed

lemma started_fresh:
  assumes "GPIOMonitor_init gpio_available pins interval minutes labels draws reads = Inr s0"
  shows "current_high_start s0 = Map.empty \<and> high_duration_history s0 = Map.empty"
proof (cases gpio_available)
  case True
  then have "setup_gpio reads (init_monitor pins interval minutes labels) = Inr s0"
    using assms by (simp add: GPIOMonitor_init_def)
  then show ?thesis
    using setup_gpio_loop_fields[of _ "init_monitor pins interval minutes labels" s0]
    by (simp add: setup_gpio_def) (simp add: init_monitor_def)
next
  case False
  then have "s0 = setup_simulation draws (init_monitor pins interval minutes labels)"
    using assms by (simp add: GPIOMonitor_init_def)
  then show ?thesis
    by (simp add: setup_simulation_def setup_simulation_fold_fields) (simp add: init_monitor_def)
qed

lemma fresh_invariants:
  assumes "current_high_start s0 = Map.empty \<and> high_duration_history s0 = Map.empty"
  shows "pending_is_high s0" "history_bounded s0" "explained_by [] s0" "durations_ok later s0"
  using assms
  by (simp_all add: pending_is_high_def history_bounded_def explained_by_def durations_ok_def
      history_of_def)

subsection \<open>The keys of the history dict\<close>

lemma history_keys_monitored_iff:
  "history_keys_monitored s \<longleftrightarrow>
     (\<forall>p. p \<notin> set (pins_to_monitor s) \<longrightarrow> high_duration_history s p = None)"
  unfolding history_keys_monitored_def by (auto simp: subset_iff dom_def)

lemma keys_process_pin:
  assumes "history_keys_monitored s" "p \<in> set (pins_to_monitor s)"
  shows "history_keys_monitored (process_pin t p x s)"
proof (cases "read_pin x (old_state_of s p)")
  case None
  then show ?thesis using assms(1) by (simp add: process_pin_def)
next
  case (Some new)
  then show ?thesis using assms
    by (auto simp add: history_keys_monitored_iff process_pin_def rt_high_duration_history
        split: option.splits)
qed

lemma fold_process_pins [simp]:
  "pins_to_monitor (fold (\<lambda>(pin, x). process_pin t pin x) ps s) = pins_to_monitor s"
  by (induction ps arbitrary: s) (simp_all add: split_beta)

lemma keys_fold:
  "history_keys_monitored s \<Longrightarrow> \<forall>a\<in>set ps. fst a \<in> set (pins_to_monitor s) \<Longrightarrow>
   history_keys_monitored (fold (\<lambda>(pin, x). process_pin t pin x) ps s)"
proof (induction ps arbitrary: s)
  case Nil
  then show ?case by simp
next
  case (Cons a ps)
  obtain p x where a: "a = (p, x)" by (cases a)
  have 1: "history_keys_monitored (process_pin t p x s)"
    using Cons.prems a by (simp add: keys_process_pin)
  have 2: "\<forall>a\<in>set ps. fst a \<in> set (pins_to_monitor (process_pin t p x s))"
    using Cons.prems(2) by simp
  have "history_keys_monitored (fold (\<lambda>(pin, x). process_pin t pin x) ps (process_pin t p x s))"
    using 1 2 by (rule Cons.IH)
  then show ?case by (simp add: a)
qed

lemma keys_tick: "history_keys_monitored s \<Longrightarrow> history_keys_monitored (monitor_tick t samples s)"
  unfolding monitor_tick_def by (rule keys_fold) (auto dest: set_zip_leftD)

lemma keys_reset: "history_keys_monitored s \<Longrightarrow> history_keys_monitored (reset_counters s)"
  by (simp add: history_keys_monitored_iff reset_counters_fields reset_counters_history)

lemma touch_fold_history_dom:
  "dom (high_duration_history (fold touch_defaults pins s)) =
     dom (high_duration_history s) \<union> set pins"
  by (induction pins arbitrary: s) (auto simp: touch_defaults_def)

lemma keys_status: "history_keys_monitored s \<Longrightarrow> history_keys_monitored (snd (get_pin_status t s))"
  by (simp add: history_keys_monitored_def get_pin_status_eq touch_fold_history_dom touch_fold_fields)

lemma exec_pins [simp]: "pins_to_monitor (exec ev s) = pins_to_monitor s"
  by (cases ev)
     (simp_all add: monitor_tick_def reset_counters_fields get_pin_status_eq touch_fold_fields
        start_monitoring_def stop_monitoring_def)

lemma run_pins [simp]: "pins_to_monitor (run evs s) = pins_to_monitor s"
  by (induction evs arbitrary: s) simp_all

lemma keys_start: "history_keys_monitored s \<Longrightarrow> history_keys_monitored (start_monitoring s)"
  by (simp add: history_keys_monitored_def start_monitoring_def)

lemma keys_stop: "history_keys_monitored s \<Longrightarrow> history_keys_monitored (stop_monitoring s)"
  by (simp add: history_keys_monitored_def stop_monitoring_def)

lemma keys_exec: "history_keys_monitored s \<Longrightarrow> history_keys_monitored (exec ev s)"
  by (cases ev) (simp_all add: keys_tick keys_reset keys_status keys_start keys_stop)

lemma keys_run: "history_keys_monitored s \<Longrightarrow> history_keys_monitored (run evs s)"
proof (induction evs arbitrary: s)
  case Nil
  then show ?case by simp
next
  case (Cons ev evs)
  have "history_keys_monitored (exec ev s)" by (rule keys_exec[OF Cons.prems])
  from Cons.IH[OF this] show ?case by simp
qed

lemma setup_simulation_pins:
  "pins_to_monitor (fold (\<lambda>(pin, (level, t)) s.
             s\<lparr>pin_states := (pin_states s)(pin \<mapsto> level),
               last_transition_time := (last_transition_time s)(pin \<mapsto> t)\<rparr>) ps s) = pins_to_monitor s"
  by (induction ps arbitrary: s) (simp_all add: split_beta)

lemma setup_gpio_loop_pins:
  "setup_gpio_loop ps s = Inr s' \<Longrightarrow> pins_to_monitor s' = pins_to_monitor s"
proof (induction ps s rule: setup_gpio_loop.induct)
  case (1 s)
  then show ?case by simp
next
  case (2 pin r t rest s)
  then show ?case by (cases r) simp_all
qed

lemma started_pins:
  assumes "GPIOMonitor_init gpio_available pins interval minutes labels draws reads = Inr s0"
  shows "pins_to_monitor s0 = pins"
proof (cases gpio_available)
  case True
  then have "setup_gpio reads (init_monitor pins interval minutes labels) = Inr s0"
    using assms by (simp add: GPIOMonitor_init_def)
  then show ?thesis
    using setup_gpio_loop_pins[of _ "init_monitor pins interval minutes labels" s0]
    by (simp add: setup_gpio_def) (simp add: init_monitor_def)
next
  case False
  then have "s0 = setup_simulation draws (init_monitor pins interval minutes labels)"
    using assms by (simp add: GPIOMonitor_init_def)
  then show ?thesis
    by (simp add: setup_simulation_def setup_simulation_pins) (simp add: init_monitor_def)
qed

lemma unmonitored_no_key:
  assumes "GPIOMonitor_init gpio_available pins interval minutes labels draws reads = Inr s0"
    and "pin \<notin> set pins"
  shows "high_duration_history (run evs s0) pin = None"
proof -
  have "history_keys_monitored s0"
    using started_fresh[OF assms(1)] by (simp add: history_keys_monitored_def)
  then have "history_keys_monitored (run evs s0)" by (rule keys_run)
  then show ?thesis using assms(2) started_pins[OF assms(1)]
    by (simp add: history_keys_monitored_iff)
qed

subsection \<open>The live duration of a snapshot\<close>


subsection \<open>The deque and the cutoff of get_pin_history\<close>

lemma deque_append_length: "length xs \<le> n \<Longrightarrow> length (deque_append n xs x) \<le> n"
  by (simp add: deque_append_def Let_def)

lemma deque_append_full: "length xs = n \<Longrightarrow> 0 < n \<Longrightarrow> deque_append n xs x = tl xs @ [x]"
  by (cases xs) (simp_all add: deque_append_def Let_def)

lemma fold_deque_append_length:
  "length xs \<le> n \<Longrightarrow> length (fold (\<lambda>x b. deque_append n b x) es xs) \<le> n"
  by (induction es arbitrary: xs) (simp_all add: deque_append_length)

lemma timedelta_hours_ok:
  assumes "valid_datetime now" "valid_datetime (now - hours * 3600000000)"
  shows "timedelta_hours hours = Inr (hours * 3600000000)"
proof -
  have "- 315537897600000000 < hours * 3600000000" "hours * 3600000000 < 315537897600000000"
    using assms by (simp_all add: valid_datetime_def MAXDATETIME_def)
  then have "- 999999999 \<le> hours * 3600000000 div 86400000000"
    "hours * 3600000000 div 86400000000 \<le> 999999999"
    by linarith+
  then show ?thesis by (simp add: timedelta_hours_def Let_def)
qed

lemma get_pin_history_cutoff:
  assumes "valid_datetime now" "valid_datetime (now - hours * 3600000000)"
  shows "get_pin_history now pin hours s =
           Inr (filter (\<lambda>e. now - hours * 3600000000 \<le> timestamp e) (history_of s pin))"
proof -
  have "datetime_sub now (hours * 3600000000) = Inr (now - hours * 3600000000)"
    using assms(2) by (simp add: datetime_sub_def valid_datetime_def Let_def)
  then show ?thesis
    using timedelta_hours_ok[OF assms]
    by (simp add: get_pin_history_def history_of_def split: option.splits)
qed

lemmas eval_defs = run_def setup_simulation_def init_monitor_def start_monitoring_def
      stop_monitoring_def monitor_tick_def process_pin_def read_pin_def old_state_of_def
      record_transition_def count_of_def history_of_def deque_append_def HISTORY_MAXLEN_def Let_def

section \<open>The claims\<close>

subsection \<open>C1: get_pin_history filters on the recorded timestamp\<close>

text \<open>
  C1, as amended. For every line id, every state and every number of hours such that
  \<open>now\<close> and \<open>now - hours\<close> are representable datetimes, \<open>get_pin_history\<close> returns
  exactly the entries of the line's buffer whose recorded timestamp, the time of the
  falling edge that ended the interval, is at or after \<open>now - hours\<close>, in the
  buffer's order. With \<open>hours = 0\<close> the result is empty when every entry of the
  buffer was stamped before \<open>now\<close>.
\<close>

theorem get_pin_history_by_timestamp:
  assumes "valid_datetime now" and "valid_datetime (now - hours * 3600000000)"
  shows "get_pin_history now pin hours s =
           Inr (filter (\<lambda>e. now - hours * 3600000000 \<le> timestamp e) (history_of s pin)) \<and>
         (hours = 0 \<and> (\<forall>e\<in>set (history_of s pin). timestamp e < now) \<longrightarrow>
            get_pin_history now pin hours s = Inr [])"
proof (intro conjI impI)
  show eq: "get_pin_history now pin hours s =
           Inr (filter (\<lambda>e. now - hours * 3600000000 \<le> timestamp e) (history_of s pin))"
    by (rule get_pin_history_cutoff[OF assms])
  assume h: "hours = 0 \<and> (\<forall>e\<in>set (history_of s pin). timestamp e < now)"
  then have "filter (\<lambda>e. now - hours * 3600000000 \<le> timestamp e) (history_of s pin) = []"
    by (auto simp: filter_empty_conv)
  with eq show "get_pin_history now pin hours s = Inr []" by simp
qed

text \<open>
  The theorem at a run with two completed intervals, asked for one hour and for zero
  hours.
\<close>

theorem get_pin_history_by_timestamp_witness:
  "valid_datetime 63928742400000000 \<and> valid_datetime (63928742400000000 - 1 * 3600000000) \<and>
   get_pin_history 63928742400000000 17 1
     (run [StartMonitoring, Tick 63928737000000000 [Level 1], Tick 63928740600000000 [Level 0],
           Tick 63928741000000000 [Level 1], Tick 63928741000000001 [Level 0]]
        (setup_simulation [(0, 63928700000000000)] (init_monitor [17] (1 / 10) 60 Map.empty))) =
     Inr [\<lparr>timestamp = 63928740600000000, duration = 3600000000\<rparr>,
          \<lparr>timestamp = 63928741000000001, duration = 1\<rparr>] \<and>
   get_pin_history 63928742400000000 17 0
     (run [StartMonitoring, Tick 63928737000000000 [Level 1], Tick 63928740600000000 [Level 0],
           Tick 63928741000000000 [Level 1], Tick 63928741000000001 [Level 0]]
        (setup_simulation [(0, 63928700000000000)] (init_monitor [17] (1 / 10) 60 Map.empty))) =
     Inr []"
proof -
  let ?s = "run [StartMonitoring, Tick 63928737000000000 [Level 1], Tick 63928740600000000 [Level 0],
           Tick 63928741000000000 [Level 1], Tick 63928741000000001 [Level 0]]
        (setup_simulation [(0, 63928700000000000)] (init_monitor [17] (1 / 10) 60 Map.empty))"
  have v: "valid_datetime 63928742400000000" "valid_datetime (63928742400000000 - 1 * 3600000000)"
    "valid_datetime (63928742400000000 - 0 * 3600000000)"
    by (simp_all add: valid_datetime_def MAXDATETIME_def)
  have h: "history_of ?s 17 = [\<lparr>timestamp = 63928740600000000, duration = 3600000000\<rparr>,
          \<lparr>timestamp = 63928741000000001, duration = 1\<rparr>]"
    by (simp add: eval_defs)
  show ?thesis
    using get_pin_history_by_timestamp[OF v(1) v(2), of 17 ?s]
      get_pin_history_by_timestamp[OF v(1) v(3), of 17 ?s] v(1) v(2)
    by (simp add: h del: run_Cons run_Nil)
qed

text \<open>
  The claim as stated fails in three ways. Line 17 is high from 22:30 to 23:30 on
  2026-10-27. Asked at midnight for the last hour, \<open>get_pin_history\<close> returns the
  interval, which began before the cutoff of 23:00: the filter reads the end of the
  interval, and selecting on the start gives no entry. Asked at 23:30 for zero hours it
  returns the entry stamped at that instant. Asked for 100000000 hours it raises
  \<^verbatim>\<open>OverflowError\<close>, the cutoff being before year 1.
\<close>

theorem get_pin_history_by_start_counterexample:
  "get_pin_history 63928742400000000 17 1
     (run [StartMonitoring, Tick 63928737000000000 [Level 1], Tick 63928740600000000 [Level 0]]
        (setup_simulation [(0, 63928700000000000)] (init_monitor [17] (1 / 10) 60 Map.empty))) =
     Inr [\<lparr>timestamp = 63928740600000000, duration = 3600000000\<rparr>] \<and>
   filter (\<lambda>e. 63928742400000000 - 1 * 3600000000 \<le> entry_start e)
     (history_of
       (run [StartMonitoring, Tick 63928737000000000 [Level 1], Tick 63928740600000000 [Level 0]]
          (setup_simulation [(0, 63928700000000000)] (init_monitor [17] (1 / 10) 60 Map.empty))) 17) =
     [] \<and>
   get_pin_history 63928740600000000 17 0
     (run [StartMonitoring, Tick 63928737000000000 [Level 1], Tick 63928740600000000 [Level 0]]
        (setup_simulation [(0, 63928700000000000)] (init_monitor [17] (1 / 10) 60 Map.empty))) =
     Inr [\<lparr>timestamp = 63928740600000000, duration = 3600000000\<rparr>] \<and>
   get_pin_history 63928742400000000 17 100000000
     (run [StartMonitoring, Tick 63928737000000000 [Level 1], Tick 63928740600000000 [Level 0]]
        (setup_simulation [(0, 63928700000000000)] (init_monitor [17] (1 / 10) 60 Map.empty))) =
     Inl OverflowError"
  by (simp add: eval_defs get_pin_history_def timedelta_hours_def datetime_sub_def MAXDATETIME_def
      entry_start_def)

subsection \<open>C2: what a recorded interval holds\<close>

text \<open>
  C2, as amended. In every run from the monitor's start, every entry of a history
  buffer has \<open>duration = end - start\<close>, where the end is the entry's timestamp; its
  end is the time of a falling edge of its line, and its start is the time of the
  rising edge that comes just before that falling edge among the line's rising and
  falling edges, the tick that set the pending high start. The duration is not
  negative when the clock readings of the loop's iterations do not decrease.
\<close>

theorem recorded_interval:
  assumes "GPIOMonitor_init gpio_available pins interval minutes labels draws reads = Inr s0"
    and "e \<in> set (history_of (run evs s0) pin)"
  shows "duration e = timestamp e - entry_start e \<and>
         (\<exists>i. Suc i < length (line_edges pin (run_edges evs s0)) \<and>
              line_edges pin (run_edges evs s0) ! i = (pin, 0, 1, entry_start e) \<and>
              line_edges pin (run_edges evs s0) ! Suc i = (pin, 1, 0, timestamp e)) \<and>
         (sorted (tick_times evs) \<longrightarrow> 0 \<le> duration e)"
proof (intro conjI impI)
  show "duration e = timestamp e - entry_start e" by (simp add: entry_start_def)
next
  have "explained_by [] s0"
    using started_fresh[OF assms(1)] fresh_invariants(3) by blast
  then have "explained_by ([] @ run_edges evs s0) (run evs s0)" by (rule explained_by_run)
  then show "\<exists>i. Suc i < length (line_edges pin (run_edges evs s0)) \<and>
              line_edges pin (run_edges evs s0) ! i = (pin, 0, 1, entry_start e) \<and>
              line_edges pin (run_edges evs s0) ! Suc i = (pin, 1, 0, timestamp e)"
    using assms(2) unfolding explained_by_def by simp
next
  assume "sorted (tick_times evs)"
  moreover have "durations_ok (tick_times evs) s0"
    using started_fresh[OF assms(1)] fresh_invariants(4) by blast
  ultimately have "durations_ok [] (run evs s0)" by (simp add: durations_ok_run)
  then show "0 \<le> duration e" using assms(2) by (simp add: durations_ok_def)
qed

text \<open>
  The theorem at a run with one rising and one falling edge.
\<close>

theorem recorded_interval_witness:
  "GPIOMonitor_init False [17] (1 / 10) 60 Map.empty [(0, 0)] [] =
     Inr (setup_simulation [(0, 0)] (init_monitor [17] (1 / 10) 60 Map.empty)) \<and>
   \<lparr>timestamp = 25, duration = 15\<rparr> \<in>
     set (history_of (run [StartMonitoring, Tick 10 [Level 1], Tick 25 [Level 0]]
        (setup_simulation [(0, 0)] (init_monitor [17] (1 / 10) 60 Map.empty))) 17) \<and>
   sorted (tick_times [StartMonitoring, Tick 10 [Level 1], Tick 25 [Level 0]]) \<and>
   line_edges 17 (run_edges [StartMonitoring, Tick 10 [Level 1], Tick 25 [Level 0]]
        (setup_simulation [(0, 0)] (init_monitor [17] (1 / 10) 60 Map.empty))) =
     [(17, 0, 1, 10), (17, 1, 0, 25)] \<and>
   entry_start \<lparr>timestamp = 25, duration = 15\<rparr> = 10 \<and>
   (\<exists>i. Suc i < length (line_edges 17 (run_edges [StartMonitoring, Tick 10 [Level 1], Tick 25 [Level 0]]
        (setup_simulation [(0, 0)] (init_monitor [17] (1 / 10) 60 Map.empty)))) \<and>
        line_edges 17 (run_edges [StartMonitoring, Tick 10 [Level 1], Tick 25 [Level 0]]
        (setup_simulation [(0, 0)] (init_monitor [17] (1 / 10) 60 Map.empty))) ! i =
          (17, 0, 1, entry_start \<lparr>timestamp = 25, duration = 15\<rparr>) \<and>
        line_edges 17 (run_edges [StartMonitoring, Tick 10 [Level 1], Tick 25 [Level 0]]
        (setup_simulation [(0, 0)] (init_monitor [17] (1 / 10) 60 Map.empty))) ! Suc i =
          (17, 1, 0, timestamp \<lparr>timestamp = 25, duration = 15\<rparr>)) \<and>
   0 \<le> duration \<lparr>timestamp = 25, duration = 15\<rparr>"
proof -
  let ?init = "setup_simulation [(0, 0)] (init_monitor [17] (1 / 10) 60 Map.empty)"
  let ?evs = "[StartMonitoring, Tick 10 [Level 1], Tick 25 [Level 0]]"
  let ?e = "\<lparr>timestamp = 25, duration = 15\<rparr>"
  have i: "GPIOMonitor_init False [17] (1 / 10) 60 Map.empty [(0, 0)] [] = Inr ?init"
    by (simp add: GPIOMonitor_init_def)
  have h: "history_of (run ?evs ?init) 17 = [?e]" by (simp add: eval_defs)
  then have m: "?e \<in> set (history_of (run ?evs ?init) 17)" by (simp del: run_Cons run_Nil)
  have s: "sorted (tick_times ?evs)" by simp
  have l: "line_edges 17 (run_edges ?evs ?init) = [(17, 0, 1, 10), (17, 1, 0, 25)]"
    by (simp add: eval_defs pin_edges_def line_edges_def)
  have st: "entry_start ?e = 10" by (simp add: entry_start_def)
  from recorded_interval[OF i m] s
  have "\<exists>i. Suc i < length (line_edges 17 (run_edges ?evs ?init)) \<and>
        line_edges 17 (run_edges ?evs ?init) ! i = (17, 0, 1, entry_start ?e) \<and>
        line_edges 17 (run_edges ?evs ?init) ! Suc i = (17, 1, 0, timestamp ?e)"
    "0 \<le> duration ?e"
    by blast+
  then show ?thesis using i m s l st by blast
qed

text \<open>
  The claim as stated fails when the clock steps back between the two edges: the
  timestamps are readings of \<^verbatim>\<open>datetime.now()\<close>, the local wall clock. On
  2026-10-25 the rising edge is stamped 02:30:00 and, the clock having been set back
  by an hour at 03:00, the falling edge is stamped 02:05:00; the recorded duration is
  minus 25 minutes.
\<close>

theorem negative_duration_counterexample:
  "GPIOMonitor_init False [17] (1 / 10) 60 Map.empty [(0, 63928480000000000)] [] =
     Inr (setup_simulation [(0, 63928480000000000)] (init_monitor [17] (1 / 10) 60 Map.empty)) \<and>
   history_of
     (run [StartMonitoring, Tick 63928492200000000 [Level 1], Tick 63928490700000000 [Level 0]]
        (setup_simulation [(0, 63928480000000000)] (init_monitor [17] (1 / 10) 60 Map.empty))) 17 =
     [\<lparr>timestamp = 63928490700000000, duration = - 1500000000\<rparr>] \<and>
   duration \<lparr>timestamp = 63928490700000000, duration = - 1500000000\<rparr> < 0"
  by (simp add: GPIOMonitor_init_def eval_defs)

subsection \<open>C3: a rising edge followed by a falling edge\<close>

text \<open>
  C3. A line at level 0 with no transitions counted and an empty history sees a
  rising edge at \<open>t0\<close> and then a falling edge at \<open>t1 \<ge> t0\<close>. After the rising
  edge the pending high start is \<open>t0\<close>; after the falling edge two transitions are
  counted, the history holds exactly the interval that ends at \<open>t1\<close>, lasts
  \<open>t1 - t0\<close> and so starts at \<open>t0\<close>, no high start is pending and the level is 0.
\<close>

theorem rising_then_falling:
  assumes "old_state_of s pin = 0" and "count_of s pin = 0" and "history_of s pin = []"
    and "t0 \<le> t1"
    and "read_pin x0 0 = Some 1" and "read_pin x1 1 = Some 0"
    and "s1 = process_pin t0 pin x0 s" and "s2 = process_pin t1 pin x1 s1"
  shows "count_of s1 pin = 1 \<and> current_high_start s1 pin = Some t0 \<and> pin_states s1 pin = Some 1 \<and>
         count_of s2 pin = 2 \<and>
         history_of s2 pin = [\<lparr>timestamp = t1, duration = t1 - t0\<rparr>] \<and>
         entry_start \<lparr>timestamp = t1, duration = t1 - t0\<rparr> = t0 \<and> 0 \<le> t1 - t0 \<and>
         current_high_start s2 pin = None \<and> pin_states s2 pin = Some 0"
proof -
  have s1: "count_of s1 pin = 1" "current_high_start s1 pin = Some t0" "pin_states s1 pin = Some 1"
    "history_of s1 pin = []"
    using assms(1,2,3,5,7)
    by (simp_all add: process_pin_def count_of_def history_of_def rt_fields)
  then have old: "old_state_of s1 pin = 1" by (simp add: old_state_of_def)
  have "count_of s2 pin = 2" "history_of s2 pin = [\<lparr>timestamp = t1, duration = t1 - t0\<rparr>]"
    "current_high_start s2 pin = None" "pin_states s2 pin = Some 0"
    using s1 old assms(6,8)
    by (simp_all add: process_pin_def count_of_def history_of_def rt_fields deque_append_def
        HISTORY_MAXLEN_def)
  then show ?thesis using s1 assms(4) by (simp add: entry_start_def)
qed

text \<open>
  The scenario of the specification: line 17, rising at 0.0 s, falling at 0.5 s
  (500000 microseconds).
\<close>

theorem rising_then_falling_witness:
  "old_state_of (setup_simulation [(0, 0)] (init_monitor [17] (1 / 10) 60 Map.empty)) 17 = 0 \<and>
   count_of (setup_simulation [(0, 0)] (init_monitor [17] (1 / 10) 60 Map.empty)) 17 = 0 \<and>
   history_of (setup_simulation [(0, 0)] (init_monitor [17] (1 / 10) 60 Map.empty)) 17 = [] \<and>
   count_of (process_pin 500000 17 (Level 0) (process_pin 0 17 (Level 1)
     (setup_simulation [(0, 0)] (init_monitor [17] (1 / 10) 60 Map.empty)))) 17 = 2 \<and>
   history_of (process_pin 500000 17 (Level 0) (process_pin 0 17 (Level 1)
     (setup_simulation [(0, 0)] (init_monitor [17] (1 / 10) 60 Map.empty)))) 17 =
     [\<lparr>timestamp = 500000, duration = 500000\<rparr>] \<and>
   entry_start \<lparr>timestamp = 500000, duration = 500000\<rparr> = 0 \<and>
   current_high_start (process_pin 500000 17 (Level 0) (process_pin 0 17 (Level 1)
     (setup_simulation [(0, 0)] (init_monitor [17] (1 / 10) 60 Map.empty)))) 17 = None \<and>
   pin_states (process_pin 500000 17 (Level 0) (process_pin 0 17 (Level 1)
     (setup_simulation [(0, 0)] (init_monitor [17] (1 / 10) 60 Map.empty)))) 17 = Some 0"
proof -
  let ?s = "setup_simulation [(0, 0)] (init_monitor [17] (1 / 10) 60 Map.empty)"
  have a: "old_state_of ?s 17 = 0" "count_of ?s 17 = 0" "history_of ?s 17 = []"
    by (simp_all add: setup_simulation_def init_monitor_def old_state_of_def count_of_def
        history_of_def)
  have r: "read_pin (Level 1) 0 = Some 1" "read_pin (Level 0) 1 = Some 0"
    by (simp_all add: read_pin_def)
  have t: "(0::int) \<le> 500000" by simp
  show ?thesis
    using rising_then_falling[OF a t r refl refl] a by simp
qed

subsection \<open>C4: a pending high start and the level\<close>




subsection \<open>C5: the history buffer is bounded and evicts the oldest entry\<close>

text \<open>
  C5. A deque of bound 1000 never holds more than 1000 entries after any sequence of
  appends, and neither does the history of any line in any run of the monitor.
  Appending to a deque of exactly 1000 entries drops its first (oldest) entry and
  keeps the other 999 followed by the new one; this is what a falling edge does to
  a full history.
\<close>

theorem history_buffer_bounded_fifo:
  "length (fold (\<lambda>e b. deque_append HISTORY_MAXLEN b e) es []) \<le> 1000 \<and>
   (GPIOMonitor_init gpio_available pins interval minutes labels draws reads = Inr s0 \<longrightarrow>
      length (history_of (run evs s0) pin) \<le> 1000) \<and>
   (length b = 1000 \<longrightarrow> deque_append HISTORY_MAXLEN b e = tl b @ [e]) \<and>
   (length (history_of s pin) = 1000 \<and> old_state_of s pin = 1 \<and>
    current_high_start s pin = Some t0 \<and> read_pin x 1 = Some 0 \<longrightarrow>
      history_of (process_pin t pin x s) pin =
        tl (history_of s pin) @ [\<lparr>timestamp = t, duration = t - t0\<rparr>])"
proof (intro conjI impI)
  have "length (fold (\<lambda>e b. deque_append HISTORY_MAXLEN b e) es []) \<le> HISTORY_MAXLEN"
    by (rule fold_deque_append_length) simp
  then show "length (fold (\<lambda>e b. deque_append HISTORY_MAXLEN b e) es []) \<le> 1000"
    by (simp add: HISTORY_MAXLEN_def)
next
  assume "GPIOMonitor_init gpio_available pins interval minutes labels draws reads = Inr s0"
  then have "history_bounded s0"
    using started_fresh fresh_invariants(2) by blast
  then have "history_bounded (run evs s0)" by (rule history_bounded_run)
  then show "length (history_of (run evs s0) pin) \<le> 1000"
    by (simp add: history_bounded_def HISTORY_MAXLEN_def)
next
  assume "length b = 1000"
  then show "deque_append HISTORY_MAXLEN b e = tl b @ [e]"
    by (simp add: deque_append_full HISTORY_MAXLEN_def)
next
  assume h: "length (history_of s pin) = 1000 \<and> old_state_of s pin = 1 \<and>
    current_high_start s pin = Some t0 \<and> read_pin x 1 = Some 0"
  then have "history_of (process_pin t pin x s) pin =
      deque_append HISTORY_MAXLEN (history_of s pin) \<lparr>timestamp = t, duration = t - t0\<rparr>"
    by (simp add: process_pin_def history_of_def rt_fields)
  then show "history_of (process_pin t pin x s) pin =
        tl (history_of s pin) @ [\<lparr>timestamp = t, duration = t - t0\<rparr>]"
    using h by (simp add: deque_append_full HISTORY_MAXLEN_def)
qed

text \<open>
  The theorem at a short run, and at a full buffer of 1000 entries.
\<close>

theorem history_buffer_bounded_fifo_witness:
  "GPIOMonitor_init False [17] (1 / 10) 60 Map.empty [(0, 0)] [] =
     Inr (setup_simulation [(0, 0)] (init_monitor [17] (1 / 10) 60 Map.empty)) \<and>
   length (history_of (run [StartMonitoring, Tick 10 [Level 1], Tick 20 [Level 0]]
     (setup_simulation [(0, 0)] (init_monitor [17] (1 / 10) 60 Map.empty))) 17) \<le> 1000 \<and>
   length (replicate 1000 \<lparr>timestamp = 7, duration = 3\<rparr>) = 1000 \<and>
   deque_append HISTORY_MAXLEN (replicate 1000 \<lparr>timestamp = 7, duration = 3\<rparr>)
       \<lparr>timestamp = 9, duration = 1\<rparr> =
     tl (replicate 1000 \<lparr>timestamp = 7, duration = 3\<rparr>) @ [\<lparr>timestamp = 9, duration = 1\<rparr>] \<and>
   history_of (process_pin 20 17 (Level 0)
       ((init_monitor [17] (1 / 10) 60 Map.empty)
          \<lparr>pin_states := [17 \<mapsto> 1],
           high_duration_history := [17 \<mapsto> replicate 1000 \<lparr>timestamp = 7, duration = 3\<rparr>],
           current_high_start := [17 \<mapsto> 10]\<rparr>)) 17 =
     tl (replicate 1000 \<lparr>timestamp = 7, duration = 3\<rparr>) @ [\<lparr>timestamp = 20, duration = 10\<rparr>]"
proof -
  let ?init = "setup_simulation [(0, 0)] (init_monitor [17] (1 / 10) 60 Map.empty)"
  let ?b = "replicate 1000 \<lparr>timestamp = 7, duration = 3\<rparr>"
  let ?full = "(init_monitor [17] (1 / 10) 60 Map.empty)
          \<lparr>pin_states := [17 \<mapsto> 1], high_duration_history := [17 \<mapsto> ?b],
           current_high_start := [17 \<mapsto> 10]\<rparr>"
  have i: "GPIOMonitor_init False [17] (1 / 10) 60 Map.empty [(0, 0)] [] = Inr ?init"
    by (simp add: GPIOMonitor_init_def)
  have l: "length ?b = 1000" by simp
  have h: "history_of ?full 17 = ?b" "old_state_of ?full 17 = 1" "current_high_start ?full 17 = Some 10"
    "read_pin (Level 0) 1 = Some 0"
    by (simp_all add: history_of_def old_state_of_def read_pin_def)
  show ?thesis
    using history_buffer_bounded_fifo[where es = "[]" and gpio_available = False
        and pins = "[17]" and interval = "1 / 10" and minutes = 60 and labels = Map.empty
        and draws = "[(0, 0)]" and reads = "[]" and ?s0.0 = ?init
        and evs = "[StartMonitoring, Tick 10 [Level 1], Tick 20 [Level 0]]" and pin = 17
        and b = ?b and e = "\<lparr>timestamp = 9, duration = 1\<rparr>" and s = ?full and ?t0.0 = 10
        and x = "Level 0" and t = 20] i l h
    by (simp del: run_Cons run_Nil)
qed

subsection \<open>C6: reset_counters\<close>

text \<open>
  C6. After \<open>reset_counters\<close> every monitored line has transition count 0 and an
  empty history, while the pending high starts, the levels and every other field of
  the state are as before.
\<close>

theorem reset_counters_frame:
  "(\<forall>pin\<in>set (pins_to_monitor s).
      count_of (reset_counters s) pin = 0 \<and> history_of (reset_counters s) pin = []) \<and>
   current_high_start (reset_counters s) = current_high_start s \<and>
   pin_states (reset_counters s) = pin_states s \<and>
   last_transition_time (reset_counters s) = last_transition_time s \<and>
   pins_to_monitor (reset_counters s) = pins_to_monitor s \<and>
   pin_labels (reset_counters s) = pin_labels s \<and>
   update_interval (reset_counters s) = update_interval s \<and>
   history_duration (reset_counters s) = history_duration s \<and>
   monitoring (reset_counters s) = monitoring s"
  by (simp add: reset_counters_fields count_of_def history_of_def reset_counters_history)

text \<open>
  The theorem at a state where line 5 has five transitions, two recorded intervals
  and a high interval in progress since time 50.
\<close>

theorem reset_counters_frame_witness:
  "count_of (run [StartMonitoring, Tick 10 [Level 1], Tick 20 [Level 0], Tick 30 [Level 1],
                  Tick 40 [Level 0], Tick 50 [Level 1]]
               (setup_simulation [(0, 5)] (init_monitor [5] (1 / 10) 60 Map.empty))) 5 = 5 \<and>
   history_of (run [StartMonitoring, Tick 10 [Level 1], Tick 20 [Level 0], Tick 30 [Level 1],
                  Tick 40 [Level 0], Tick 50 [Level 1]]
               (setup_simulation [(0, 5)] (init_monitor [5] (1 / 10) 60 Map.empty))) 5 =
     [\<lparr>timestamp = 20, duration = 10\<rparr>, \<lparr>timestamp = 40, duration = 10\<rparr>] \<and>
   count_of (reset_counters (run [StartMonitoring, Tick 10 [Level 1], Tick 20 [Level 0],
                  Tick 30 [Level 1], Tick 40 [Level 0], Tick 50 [Level 1]]
               (setup_simulation [(0, 5)] (init_monitor [5] (1 / 10) 60 Map.empty)))) 5 = 0 \<and>
   history_of (reset_counters (run [StartMonitoring, Tick 10 [Level 1], Tick 20 [Level 0],
                  Tick 30 [Level 1], Tick 40 [Level 0], Tick 50 [Level 1]]
               (setup_simulation [(0, 5)] (init_monitor [5] (1 / 10) 60 Map.empty)))) 5 = [] \<and>
   current_high_start (reset_counters (run [StartMonitoring, Tick 10 [Level 1], Tick 20 [Level 0],
                  Tick 30 [Level 1], Tick 40 [Level 0], Tick 50 [Level 1]]
               (setup_simulation [(0, 5)] (init_monitor [5] (1 / 10) 60 Map.empty)))) 5 = Some 50 \<and>
   pin_states (reset_counters (run [StartMonitoring, Tick 10 [Level 1], Tick 20 [Level 0],
                  Tick 30 [Level 1], Tick 40 [Level 0], Tick 50 [Level 1]]
               (setup_simulation [(0, 5)] (init_monitor [5] (1 / 10) 60 Map.empty)))) 5 = Some 1"
proof -
  let ?s = "run [StartMonitoring, Tick 10 [Level 1], Tick 20 [Level 0], Tick 30 [Level 1],
                  Tick 40 [Level 0], Tick 50 [Level 1]]
               (setup_simulation [(0, 5)] (init_monitor [5] (1 / 10) 60 Map.empty))"
  have p: "pins_to_monitor ?s = [5]"
    by (simp add: setup_simulation_def init_monitor_def del: run_Cons run_Nil)
  have c: "count_of ?s 5 = 5" by (simp add: eval_defs)
  have h: "history_of ?s 5 = [\<lparr>timestamp = 20, duration = 10\<rparr>, \<lparr>timestamp = 40, duration = 10\<rparr>]"
    by (simp add: eval_defs)
  have q: "current_high_start ?s 5 = Some 50" by (simp add: eval_defs)
  have l: "pin_states ?s 5 = Some 1" by (simp add: eval_defs)
  show ?thesis using reset_counters_frame[of ?s] p c h q l
    by (simp del: run_Cons run_Nil)
qed

subsection \<open>C7: loading the configuration\<close>

text \<open>
  C7, as amended. With no file, loading returns the defaults: lines 2 to 27, an
  update interval of 0.1 s, a history window of 60 minutes and no labels. With a
  well-formed file it returns the file's value. With a malformed file it raises the
  decode error: the \<^verbatim>\<open>try\<close> statement handles \<^verbatim>\<open>FileNotFoundError\<close> only.
\<close>

theorem load_config_defaults:
  "load_config Missing = Inr default_config \<and>
   load_config (Wellformed cfg) = Inr cfg \<and>
   load_config Malformed = Inl JSONDecodeError \<and>
   config_get default_config ''pins_to_monitor'' d1 = Inr (JArray (map JInt [2..27])) \<and>
   config_get default_config ''update_interval'' d2 = Inr (JFloat (1 / 10)) \<and>
   config_get default_config ''history_duration_minutes'' d3 = Inr (JInt 60) \<and>
   config_get default_config ''pin_labels'' d4 = Inr (JObject [])"
  by (simp add: load_config_def read_config_def config_get_def default_config_def)

text \<open>
  The claim as stated fails on a malformed file: loading raises instead of
  returning the defaults.
\<close>

theorem load_config_malformed_counterexample:
  "load_config Malformed = Inl JSONDecodeError \<and> load_config Malformed \<noteq> Inr default_config"
  by (simp add: load_config_def read_config_def)

subsection \<open>C8: the change notification\<close>

text \<open>
  C8. The claim needs a listener registered with the monitor and called at every
  edge. \<open>record_transition\<close> and \<open>process_pin\<close> above are the whole of what the loop
  does at an edge: no listener is called, the state has no field for one, and the
  registration that \<^verbatim>\<open>WebServer.__init__\<close> attempts raises \<^verbatim>\<open>AttributeError\<close>,
  since \<^verbatim>\<open>GPIOMonitor\<close> has no attribute \<^verbatim>\<open>set_state_change_callback\<close>.
\<close>

theorem state_change_callback_missing:
  "register_state_change_callback = Inl AttributeError"
  by (simp add: register_state_change_callback_def getattr_GPIOMonitor_def
      GPIOMonitor_attributes_def GPIOMonitor_methods_def)

subsection \<open>C9: a failed read leaves the line alone\<close>

text \<open>
  C9. If every read of a line fails during a tick, the line's level, transition
  count, last transition time, pending high start and history are the same after
  the tick as before it (so no interval is recorded for it), and every other line
  ends the tick in the state it would have reached had the reads of the failing line
  returned anything else.
\<close>

theorem read_error_skips_line:
  assumes "length samples' = length samples"
    and "\<forall>i<length samples. i < length (pins_to_monitor s) \<longrightarrow>
           (if pins_to_monitor s ! i = pin then samples ! i = ReadError
            else samples' ! i = samples ! i)"
  shows "line_view (monitor_tick t samples s) pin = line_view s pin \<and>
         (\<forall>q. q \<noteq> pin \<longrightarrow>
            line_view (monitor_tick t samples s) q = line_view (monitor_tick t samples' s) q)"
proof -
  let ?ps = "zip (pins_to_monitor s) samples" and ?ps' = "zip (pins_to_monitor s) samples'"
  have nth: "pins_to_monitor s ! i = pin \<longrightarrow> samples ! i = ReadError"
    "pins_to_monitor s ! i \<noteq> pin \<longrightarrow> samples' ! i = samples ! i"
    if "i < length samples" "i < length (pins_to_monitor s)" for i
    using assms(2) that by (auto split: if_splits)
  have skip: "\<forall>a\<in>set ?ps. fst a = pin \<longrightarrow> snd a = ReadError"
  proof
    fix a assume "a \<in> set ?ps"
    then obtain i where i: "i < length ?ps" "a = ?ps ! i" by (auto simp: in_set_conv_nth)
    then have "i < length samples" "i < length (pins_to_monitor s)" by simp_all
    then show "fst a = pin \<longrightarrow> snd a = ReadError" using nth(1)[of i] i by simp
  qed
  have len: "length ?ps = length ?ps'" using assms(1) by simp
  have rel: "list_all2 (\<lambda>a b. fst a = fst b \<and> (fst a \<noteq> pin \<longrightarrow> snd a = snd b)) ?ps ?ps'"
    unfolding list_all2_conv_all_nth
  proof (intro conjI allI impI)
    show "length ?ps = length ?ps'" by (rule len)
  next
    fix i assume "i < length ?ps"
    then have i: "i < length samples" "i < length (pins_to_monitor s)" "i < length samples'"
      using assms(1) by simp_all
    then show "fst (?ps ! i) = fst (?ps' ! i)" by simp
    assume "fst (?ps ! i) \<noteq> pin"
    then show "snd (?ps ! i) = snd (?ps' ! i)" using nth(2)[OF i(1,2)] i by simp
  qed
  have "line_view (monitor_tick t samples s) pin = line_view s pin"
    unfolding monitor_tick_def by (rule fold_process_skip[OF skip])
  moreover have "line_view (monitor_tick t samples s) q = line_view (monitor_tick t samples' s) q"
    if "q \<noteq> pin" for q
    unfolding monitor_tick_def by (rule fold_process_agree[OF rel that refl])
  ultimately show ?thesis by blast
qed

text \<open>
  The theorem at a tick over lines 9 and 10 where the read of line 9 fails and line 10
  rises.
\<close>

theorem read_error_skips_line_witness:
  "line_view (monitor_tick 30 [ReadError, Level 1]
      (setup_simulation [(0, 1), (0, 2)] (init_monitor [9, 10] (1 / 10) 60 Map.empty))) 9 =
   line_view (setup_simulation [(0, 1), (0, 2)] (init_monitor [9, 10] (1 / 10) 60 Map.empty)) 9 \<and>
   line_view (monitor_tick 30 [ReadError, Level 1]
      (setup_simulation [(0, 1), (0, 2)] (init_monitor [9, 10] (1 / 10) 60 Map.empty))) 10 =
   line_view (monitor_tick 30 [Level 1, Level 1]
      (setup_simulation [(0, 1), (0, 2)] (init_monitor [9, 10] (1 / 10) 60 Map.empty))) 10 \<and>
   line_view (monitor_tick 30 [ReadError, Level 1]
      (setup_simulation [(0, 1), (0, 2)] (init_monitor [9, 10] (1 / 10) 60 Map.empty))) 10 =
   (Some 1, Some 1, Some 30, Some 30, None)"
proof -
  let ?init = "setup_simulation [(0, 1), (0, 2)] (init_monitor [9, 10] (1 / 10) 60 Map.empty)"
  have p: "pins_to_monitor ?init = [9, 10]"
    by (simp add: setup_simulation_def init_monitor_def)
  have l: "length [Level 1, Level 1] = length [ReadError, Level 1]" by simp
  have h: "\<forall>i<length [ReadError, Level 1]. i < length (pins_to_monitor ?init) \<longrightarrow>
           (if pins_to_monitor ?init ! i = 9 then [ReadError, Level 1] ! i = ReadError
            else [Level 1, Level 1] ! i = [ReadError, Level 1] ! i)"
    unfolding p by (simp add: less_Suc_eq numeral_2_eq_2 nth_Cons')
  have v: "line_view (monitor_tick 30 [ReadError, Level 1] ?init) 10 =
             (Some 1, Some 1, Some 30, Some 30, None)"
    by (simp add: eval_defs line_view_def)
  show ?thesis
    using read_error_skips_line[OF l h, of 30] v by simp
qed

subsection \<open>C10: get_pin_history of a line without entries\<close>

text \<open>
  C10, as amended. For a pin with no key in the history dict, \<open>get_pin_history\<close>
  returns the empty list for every number of hours and does not raise; a pin that is
  not monitored never has a key, in any run. For a pin whose buffer exists and is
  empty it returns the empty list when \<open>now\<close> and \<open>now - hours\<close> are representable
  datetimes.
\<close>

theorem get_pin_history_no_entries:
  "(high_duration_history s pin = None \<longrightarrow> get_pin_history now pin hours s = Inr []) \<and>
   (history_of s pin = [] \<and> valid_datetime now \<and> valid_datetime (now - hours * 3600000000) \<longrightarrow>
      get_pin_history now pin hours s = Inr []) \<and>
   (GPIOMonitor_init gpio_available pins interval minutes labels draws reads = Inr s0 \<and>
    pin \<notin> set pins \<longrightarrow> get_pin_history now pin hours (run evs s0) = Inr [])"
proof (intro conjI impI)
  assume "high_duration_history s pin = None"
  then show "get_pin_history now pin hours s = Inr []" by (simp add: get_pin_history_def)
next
  assume "history_of s pin = [] \<and> valid_datetime now \<and> valid_datetime (now - hours * 3600000000)"
  then show "get_pin_history now pin hours s = Inr []"
    using get_pin_history_cutoff[of now hours pin s] by simp
next
  assume "GPIOMonitor_init gpio_available pins interval minutes labels draws reads = Inr s0 \<and>
    pin \<notin> set pins"
  then have "high_duration_history (run evs s0) pin = None"
    using unmonitored_no_key by blast
  then show "get_pin_history now pin hours (run evs s0) = Inr []"
    by (simp add: get_pin_history_def)
qed

text \<open>
  The theorem at a monitored line before and after a snapshot created its buffer,
  and at a line that is not monitored.
\<close>

theorem get_pin_history_no_entries_witness:
  "high_duration_history
     (setup_simulation [(1, 63928700000000000)] (init_monitor [5] (1 / 10) 60 Map.empty)) 5 = None \<and>
   get_pin_history 63928742400000000 5 100000000
     (setup_simulation [(1, 63928700000000000)] (init_monitor [5] (1 / 10) 60 Map.empty)) = Inr [] \<and>
   history_of
     (run [GetPinStatus 63928700000000001]
        (setup_simulation [(1, 63928700000000000)] (init_monitor [5] (1 / 10) 60 Map.empty))) 5 = [] \<and>
   valid_datetime (63928742400000000 - 24 * 3600000000) \<and>
   get_pin_history 63928742400000000 5 24
     (run [GetPinStatus 63928700000000001]
        (setup_simulation [(1, 63928700000000000)] (init_monitor [5] (1 / 10) 60 Map.empty))) = Inr [] \<and>
   GPIOMonitor_init False [5] (1 / 10) 60 Map.empty [(1, 63928700000000000)] [] =
     Inr (setup_simulation [(1, 63928700000000000)] (init_monitor [5] (1 / 10) 60 Map.empty)) \<and>
   get_pin_history 63928742400000000 6 100000000
     (run [GetPinStatus 63928700000000001]
        (setup_simulation [(1, 63928700000000000)] (init_monitor [5] (1 / 10) 60 Map.empty))) = Inr []"
proof -
  let ?init = "setup_simulation [(1, 63928700000000000)] (init_monitor [5] (1 / 10) 60 Map.empty)"
  let ?polled = "run [GetPinStatus 63928700000000001] ?init"
  have a: "high_duration_history ?init 5 = None"
    by (simp add: setup_simulation_def init_monitor_def)
  have b: "history_of ?polled 5 = []"
    by (simp add: eval_defs get_pin_status_def touch_defaults_def)
  have v: "valid_datetime 63928742400000000" "valid_datetime (63928742400000000 - 24 * 3600000000)"
    by (simp_all add: valid_datetime_def MAXDATETIME_def)
  have i: "GPIOMonitor_init False [5] (1 / 10) 60 Map.empty [(1, 63928700000000000)] [] = Inr ?init"
    by (simp add: GPIOMonitor_init_def)
  have n: "(6::int) \<notin> set [5]" by simp
  show ?thesis
    using get_pin_history_no_entries[where s = ?init and pin = 5 and now = 63928742400000000
        and hours = 100000000]
      get_pin_history_no_entries[where s = ?polled and pin = 5 and now = 63928742400000000
        and hours = 24]
      get_pin_history_no_entries[where pin = 6 and now = 63928742400000000
        and hours = 100000000 and gpio_available = False and pins = "[5]" and interval = "1 / 10"
        and minutes = 60 and labels = Map.empty and draws = "[(1, 63928700000000000)]"
        and reads = "[]" and ?s0.0 = ?init and evs = "[GetPinStatus 63928700000000001]"]
      a b v i n
    by (simp del: run_Cons run_Nil)
qed

text \<open>
  The claim as stated fails for a monitored line with an empty buffer: a snapshot has
  created the buffer's key, and a number of hours that takes the cutoff before year 1
  raises \<^verbatim>\<open>OverflowError\<close>.
\<close>

theorem get_pin_history_empty_buffer_counterexample:
  "history_of
     (run [GetPinStatus 63928700000000001]
        (setup_simulation [(1, 63928700000000000)] (init_monitor [5] (1 / 10) 60 Map.empty))) 5 = [] \<and>
   get_pin_history 63928742400000000 5 100000000
     (run [GetPinStatus 63928700000000001]
        (setup_simulation [(1, 63928700000000000)] (init_monitor [5] (1 / 10) 60 Map.empty))) =
     Inl OverflowError"
  by (simp add: eval_defs get_pin_status_def touch_defaults_def get_pin_history_def
      timedelta_hours_def datetime_sub_def MAXDATETIME_def)

end
